theory Spec2Isabelle
  imports Main "HOL-Library.Sublist" "HOL-Library.Multiset" "HOL-Library.Char_ord"
begin

section \<open>The Go standard library, as far as the package uses it\<close>

text \<open>
  Go strings and byte slices are byte sequences; they are modelled as \<open>string\<close>
  (a list of 8-bit characters). A Go \<open>map[string]T\<close> is a partial function.
  The functions of this section are not code of the repository: they follow the
  documented behaviour (and, for \<open>path.Clean\<close>, the algorithm) of the Go standard library.
\<close>

subsection \<open>Package strings\<close>

definition HasPrefix :: "string \<Rightarrow> string \<Rightarrow> bool" where
  "HasPrefix s p = prefix p s"

fun Contains :: "string \<Rightarrow> string \<Rightarrow> bool" where
  "Contains [] sub = (sub = [])"
| "Contains (c # cs) sub = (prefix sub (c # cs) \<or> Contains cs sub)"

text \<open>\<open>strings.IndexByte\<close> and \<open>strings.LastIndexByte\<close>: the index, or -1.\<close>

fun IndexByte :: "string \<Rightarrow> char \<Rightarrow> int" where
  "IndexByte [] c = -1"
| "IndexByte (x # xs) c =
     (if x = c then 0 else (let i = IndexByte xs c in if i < 0 then -1 else i + 1))"

fun LastIndexByte :: "string \<Rightarrow> char \<Rightarrow> int" where
  "LastIndexByte [] c = -1"
| "LastIndexByte (x # xs) c =
     (let i = LastIndexByte xs c in if 0 \<le> i then i + 1 else if x = c then 0 else -1)"

text \<open>The lower-case form of an ASCII byte; every other byte stays as it is.\<close>

definition toLowerByte :: "char \<Rightarrow> char" where
  "toLowerByte c =
     (if CHR ''A'' \<le> c \<and> c \<le> CHR ''Z'' then char_of (of_char c + (32::nat)) else c)"

text \<open>
  \<open>strings.TrimSpace\<close> removes the leading and the trailing white space, as
  \<open>unicode.IsSpace\<close> defines it: the six ASCII spaces, U+0085 and U+00A0, and the
  code points with the White_Space property (U+1680, U+2000 to U+200A, U+2028, U+2029,
  U+202F, U+205F, U+3000), each in its UTF-8 encoding.
\<close>

definition unicodeSpaces :: "string list" where
  "unicodeSpaces =
     [[CHR 0x09], [CHR 0x0A], [CHR 0x0B], [CHR 0x0C], [CHR 0x0D], [CHR 0x20],
      [CHR 0xC2, CHR 0x85], [CHR 0xC2, CHR 0xA0],
      [CHR 0xE1, CHR 0x9A, CHR 0x80],
      [CHR 0xE2, CHR 0x80, CHR 0x80], [CHR 0xE2, CHR 0x80, CHR 0x81],
      [CHR 0xE2, CHR 0x80, CHR 0x82], [CHR 0xE2, CHR 0x80, CHR 0x83],
      [CHR 0xE2, CHR 0x80, CHR 0x84], [CHR 0xE2, CHR 0x80, CHR 0x85],
      [CHR 0xE2, CHR 0x80, CHR 0x86], [CHR 0xE2, CHR 0x80, CHR 0x87],
      [CHR 0xE2, CHR 0x80, CHR 0x88], [CHR 0xE2, CHR 0x80, CHR 0x89],
      [CHR 0xE2, CHR 0x80, CHR 0x8A],
      [CHR 0xE2, CHR 0x80, CHR 0xA8], [CHR 0xE2, CHR 0x80, CHR 0xA9],
      [CHR 0xE2, CHR 0x80, CHR 0xAF], [CHR 0xE2, CHR 0x81, CHR 0x9F],
      [CHR 0xE3, CHR 0x80, CHR 0x80]]"

text \<open>
  \<open>dropLeading seqs n s\<close> strips from the front of \<open>s\<close> every leading occurrence
  of a sequence of \<open>seqs\<close>; \<open>n\<close> bounds the number of rounds and is given as the length
  of \<open>s\<close>, which no run of non-empty sequences exceeds.
\<close>

fun dropLeading :: "string list \<Rightarrow> nat \<Rightarrow> string \<Rightarrow> string" where
  "dropLeading seqs 0 s = s"
| "dropLeading seqs (Suc n) s =
     (case find (\<lambda>sp. prefix sp s) seqs of
        None \<Rightarrow> s
      | Some sp \<Rightarrow> dropLeading seqs n (drop (length sp) s))"

definition TrimSpace :: "string \<Rightarrow> string" where
  "TrimSpace s =
     (let s1 = dropLeading unicodeSpaces (length s) s
      in rev (dropLeading (map rev unicodeSpaces) (length s1) (rev s1)))"

subsection \<open>Package path\<close>

text \<open>
  \<open>path.Clean\<close>, after the library's loop: \<open>r\<close> is the unread rest of the path,
  \<open>out\<close> the bytes written so far (the library's \<open>lazybuf\<close> up to its index \<open>w\<close>),
  \<open>dotdot\<close> the index where a \<open>..\<close> element must stop backtracking.
\<close>

text \<open>The backtracking loop \<open>for out.w > dotdot && out.index(out.w) != '/' { out.w-- }\<close>.\<close>

fun backtrack :: "string \<Rightarrow> nat \<Rightarrow> nat \<Rightarrow> nat" where
  "backtrack out dotdot 0 = 0"
| "backtrack out dotdot (Suc w) =
     (if Suc w > dotdot \<and> out ! Suc w \<noteq> CHR ''/'' then backtrack out dotdot w else Suc w)"

function clean_loop :: "bool \<Rightarrow> string \<Rightarrow> string \<Rightarrow> nat \<Rightarrow> string" where
  "clean_loop rooted [] out dotdot = out"
| "clean_loop rooted (c # cs) out dotdot =
     (if c = CHR ''/'' then clean_loop rooted cs out dotdot
      else if c = CHR ''.'' \<and> (cs = [] \<or> hd cs = CHR ''/'') then clean_loop rooted cs out dotdot
      else if c = CHR ''.'' \<and> hd cs = CHR ''.'' \<and> (tl cs = [] \<or> hd (tl cs) = CHR ''/'') then
        (if length out > dotdot then
           clean_loop rooted (tl cs) (take (backtrack out dotdot (length out - 1)) out) dotdot
         else if \<not> rooted then
           clean_loop rooted (tl cs) ((if out \<noteq> [] then out @ ''/'' else out) @ ''..'')
             (length ((if out \<noteq> [] then out @ ''/'' else out) @ ''..''))
         else clean_loop rooted (tl cs) out dotdot)
      else
        clean_loop rooted (dropWhile (\<lambda>x. x \<noteq> CHR ''/'') cs)
          ((if (rooted \<and> length out \<noteq> 1) \<or> (\<not> rooted \<and> length out \<noteq> 0) then out @ ''/'' else out)
             @ c # takeWhile (\<lambda>x. x \<noteq> CHR ''/'') cs)
          dotdot)"
  by pat_completeness auto
termination
proof (relation "measure (\<lambda>(rooted, r, out, dotdot). length r)")
  show "wf (measure (\<lambda>(rooted, r, out, dotdot). length r))" by simp
qed (auto simp: length_dropWhile_le less_Suc_eq_le intro: le_trans [OF _ diff_le_self])

definition Clean :: "string \<Rightarrow> string" where
  "Clean p =
     (if p = [] then ''.''
      else let rooted = (hd p = CHR ''/'');
               out = (if rooted then clean_loop True (tl p) ''/'' 1 else clean_loop False p [] 0)
           in if out = [] then ''.'' else out)"

text \<open>\<open>path.Split\<close> and \<open>path.Dir\<close>.\<close>

definition Dir :: "string \<Rightarrow> string" where
  "Dir p = Clean (take (nat (LastIndexByte p CHR ''/'' + 1)) p)"

text \<open>\<open>path.Join\<close>: the non-empty elements, separated by slashes, then cleaned.\<close>

fun Join_loop :: "string list \<Rightarrow> string \<Rightarrow> string" where
  "Join_loop [] buf = buf"
| "Join_loop (e # es) buf =
     Join_loop es
       (if buf \<noteq> [] \<or> e \<noteq> [] then (if buf \<noteq> [] then buf @ ''/'' else buf) @ e else buf)"

definition Join :: "string list \<Rightarrow> string" where
  "Join elem = (if sum_list (map length elem) = 0 then [] else Clean (Join_loop elem []))"

subsection \<open>Package net/url\<close>

definition ishex :: "char \<Rightarrow> bool" where
  "ishex c = ((CHR ''0'' \<le> c \<and> c \<le> CHR ''9'') \<or> (CHR ''a'' \<le> c \<and> c \<le> CHR ''f'')
     \<or> (CHR ''A'' \<le> c \<and> c \<le> CHR ''F''))"

definition unhex :: "char \<Rightarrow> nat" where
  "unhex c =
     (if CHR ''0'' \<le> c \<and> c \<le> CHR ''9'' then of_char c - of_char CHR ''0''
      else if CHR ''a'' \<le> c \<and> c \<le> CHR ''f'' then of_char c - of_char CHR ''a'' + 10
      else if CHR ''A'' \<le> c \<and> c \<le> CHR ''F'' then of_char c - of_char CHR ''A'' + 10
      else 0)"

text \<open>
  \<open>url.PathUnescape\<close>: every \<open>%XX\<close> becomes the byte \<open>XX\<close>; a \<open>%\<close> that two
  hexadecimal digits do not follow is an error (\<open>None\<close>). A \<open>+\<close> stays as it is.
\<close>

fun PathUnescape :: "string \<Rightarrow> string option" where
  "PathUnescape [] = Some []"
| "PathUnescape (c # cs) =
     (if c = CHR ''%'' then
        (case cs of
           a # b # rest \<Rightarrow>
             (if ishex a \<and> ishex b
              then map_option ((#) (char_of (unhex a * 16 + unhex b))) (PathUnescape rest)
              else None)
         | _ \<Rightarrow> None)
      else map_option ((#) c) (PathUnescape cs))"

subsection \<open>Package strconv\<close>




subsection \<open>Package sort\<close>



text \<open>
  \<open>strings.Fields\<close>: the maximal runs of bytes between white space, as
  \<open>unicode.IsSpace\<close> defines it. \<open>spaceLen\<close> is the length of the white space
  sequence at the front of the input, or 0.
\<close>

definition spaceLen :: "string \<Rightarrow> nat" where
  "spaceLen s = (case find (\<lambda>sp. prefix sp s) unicodeSpaces of Some sp \<Rightarrow> length sp | None \<Rightarrow> 0)"

function Fields_loop :: "string \<Rightarrow> string \<Rightarrow> string list" where
  "Fields_loop [] cur = (if cur = [] then [] else [cur])"
| "Fields_loop (c # cs) cur =
     (if 0 < spaceLen (c # cs)
      then (if cur = [] then [] else [cur]) @ Fields_loop (drop (spaceLen (c # cs)) (c # cs)) []
      else Fields_loop cs (cur @ [c]))"
  by pat_completeness auto
termination
  by (relation "measure (\<lambda>(s, cur). length s)") auto

definition Fields :: "string \<Rightarrow> string list" where
  "Fields s = Fields_loop s []"


subsection \<open>Package unicode/utf8\<close>

text \<open>
  A rune is a code point (an \<open>int32\<close>); runes and the values of bytes are integers.
  \<open>DecodeRune\<close> gives the first rune of a byte sequence and its width in bytes: for
  a byte that begins no valid UTF-8 encoding (a stray continuation byte, an overlong or
  truncated encoding, a surrogate, a value above U+10FFFF) it gives \<open>RuneError\<close> with
  width 1, and for the empty sequence \<open>RuneError\<close> with width 0.
\<close>

definition RuneError :: int where
  "RuneError = 0xFFFD"

definition RuneSelf :: int where
  "RuneSelf = 0x80"

definition MaxRune :: int where
  "MaxRune = 0x10FFFF"

definition DecodeRune :: "string \<Rightarrow> int \<times> nat" where
  "DecodeRune s =
     (case s of
        [] \<Rightarrow> (RuneError, 0)
      | c0 # rest \<Rightarrow>
          (let s0 = (of_char c0 :: int)
           in if s0 < 0x80 then (s0, 1)
              else if s0 < 0xC2 \<or> 0xF4 < s0 then (RuneError, 1)
              else
                (let sz = (if s0 < 0xE0 then 2 else if s0 < 0xF0 then 3 else (4::nat));
                     lo = (if s0 = 0xE0 then 0xA0 else if s0 = 0xF0 then 0x90 else (0x80::int));
                     hi = (if s0 = 0xED then 0x9F else if s0 = 0xF4 then 0x8F else (0xBF::int))
                 in if length s < sz then (RuneError, 1)
                    else
                      (let s1 = (of_char (s ! 1) :: int)
                       in if s1 < lo \<or> hi < s1 then (RuneError, 1)
                          else if sz \<le> 2 then ((s0 mod 0x20) * 0x40 + s1 mod 0x40, 2)
                          else
                            (let s2 = (of_char (s ! 2) :: int)
                             in if s2 < 0x80 \<or> 0xBF < s2 then (RuneError, 1)
                                else if sz \<le> 3 then
                                  ((s0 mod 0x10) * 0x1000 + (s1 mod 0x40) * 0x40 + s2 mod 0x40, 3)
                                else
                                  (let s3 = (of_char (s ! 3) :: int)
                                   in if s3 < 0x80 \<or> 0xBF < s3 then (RuneError, 1)
                                      else
                                        ((s0 mod 8) * 0x40000 + (s1 mod 0x40) * 0x1000
                                           + (s2 mod 0x40) * 0x40 + s3 mod 0x40, 4)))))))"

lemma DecodeRune_width: "1 \<le> snd (DecodeRune (c # cs))"
  by (simp add: DecodeRune_def Let_def)

text \<open>
  The runes of a string, as the loop \<open>for _, r := range s\<close> and the conversion
  \<open>[]rune(s)\<close> give them: every invalid byte is one \<open>RuneError\<close>.
\<close>

function runes :: "string \<Rightarrow> int list" where
  "runes [] = []"
| "runes (c # cs) =
     fst (DecodeRune (c # cs)) # runes (drop (snd (DecodeRune (c # cs))) (c # cs))"
  by pat_completeness auto
termination
proof (relation "measure length")
  show "wf (measure length)" by simp
next
  fix c cs
  show "(drop (snd (DecodeRune (c # cs))) (c # cs), c # cs) \<in> measure length"
    using DecodeRune_width [of c cs] by simp
qed

text \<open>
  \<open>utf8.AppendRune\<close>: the UTF-8 encoding of a rune; a surrogate and a value out of
  range are encoded as \<open>RuneError\<close>.
\<close>

definition AppendRune :: "int \<Rightarrow> string" where
  "AppendRune r0 =
     (if 0 \<le> r0 \<and> r0 \<le> 0x7F then [char_of r0]
      else if 0 \<le> r0 \<and> r0 \<le> 0x7FF then
        [char_of (0xC0 + r0 div 0x40), char_of (0x80 + r0 mod 0x40)]
      else
        (let r = (if r0 < 0 \<or> MaxRune < r0 \<or> (0xD800 \<le> r0 \<and> r0 \<le> 0xDFFF) then RuneError else r0)
         in if r \<le> 0xFFFF then
              [char_of (0xE0 + r div 0x1000), char_of (0x80 + (r div 0x40) mod 0x40),
               char_of (0x80 + r mod 0x40)]
            else
              [char_of (0xF0 + r div 0x40000), char_of (0x80 + (r div 0x1000) mod 0x40),
               char_of (0x80 + (r div 0x40) mod 0x40), char_of (0x80 + r mod 0x40)]))"

subsection \<open>Package unicode\<close>

text \<open>
  The case tables of the library, which it generates from the Unicode Character
  Database (here version 15.0.0). \<open>caseLower\<close> holds the simple lower-case mappings
  and \<open>caseUpper\<close> the simple upper-case mappings, as runs \<open>(lo, hi, stride, delta)\<close>:
  every rune \<open>lo\<close>, \<open>lo + stride\<close>, ... up to \<open>hi\<close> is mapped to itself plus \<open>delta\<close>.
\<close>

definition caseLower :: "(int \<times> int \<times> int \<times> int) list" where
  "caseLower =
     [(0x41, 0x5A, 1, 32), (0xC0, 0xD6, 1, 32), (0xD8, 0xDE, 1, 32), (0x100, 0x12E, 2, 1),
      (0x130, 0x130, 1, - 199), (0x132, 0x136, 2, 1), (0x139, 0x147, 2, 1),
      (0x14A, 0x176, 2, 1), (0x178, 0x178, 1, - 121), (0x179, 0x17D, 2, 1),
      (0x181, 0x181, 1, 210), (0x182, 0x184, 2, 1), (0x186, 0x186, 1, 206),
      (0x187, 0x187, 1, 1), (0x189, 0x18A, 1, 205), (0x18B, 0x18B, 1, 1),
      (0x18E, 0x18E, 1, 79), (0x18F, 0x18F, 1, 202), (0x190, 0x190, 1, 203),
      (0x191, 0x191, 1, 1), (0x193, 0x193, 1, 205), (0x194, 0x194, 1, 207),
      (0x196, 0x196, 1, 211), (0x197, 0x197, 1, 209), (0x198, 0x198, 1, 1),
      (0x19C, 0x19C, 1, 211), (0x19D, 0x19D, 1, 213), (0x19F, 0x19F, 1, 214),
      (0x1A0, 0x1A4, 2, 1), (0x1A6, 0x1A6, 1, 218), (0x1A7, 0x1A7, 1, 1),
      (0x1A9, 0x1A9, 1, 218), (0x1AC, 0x1AC, 1, 1), (0x1AE, 0x1AE, 1, 218),
      (0x1AF, 0x1AF, 1, 1), (0x1B1, 0x1B2, 1, 217), (0x1B3, 0x1B5, 2, 1),
      (0x1B7, 0x1B7, 1, 219), (0x1B8, 0x1B8, 1, 1), (0x1BC, 0x1BC, 1, 1), (0x1C4, 0x1C4, 1, 2),
      (0x1C5, 0x1C5, 1, 1), (0x1C7, 0x1C7, 1, 2), (0x1C8, 0x1C8, 1, 1), (0x1CA, 0x1CA, 1, 2),
      (0x1CB, 0x1DB, 2, 1), (0x1DE, 0x1EE, 2, 1), (0x1F1, 0x1F1, 1, 2), (0x1F2, 0x1F4, 2, 1),
      (0x1F6, 0x1F6, 1, - 97), (0x1F7, 0x1F7, 1, - 56), (0x1F8, 0x21E, 2, 1),
      (0x220, 0x220, 1, - 130), (0x222, 0x232, 2, 1), (0x23A, 0x23A, 1, 10795),
      (0x23B, 0x23B, 1, 1), (0x23D, 0x23D, 1, - 163), (0x23E, 0x23E, 1, 10792),
      (0x241, 0x241, 1, 1), (0x243, 0x243, 1, - 195), (0x244, 0x244, 1, 69),
      (0x245, 0x245, 1, 71), (0x246, 0x24E, 2, 1), (0x370, 0x372, 2, 1), (0x376, 0x376, 1, 1),
      (0x37F, 0x37F, 1, 116), (0x386, 0x386, 1, 38), (0x388, 0x38A, 1, 37),
      (0x38C, 0x38C, 1, 64), (0x38E, 0x38F, 1, 63), (0x391, 0x3A1, 1, 32),
      (0x3A3, 0x3AB, 1, 32), (0x3CF, 0x3CF, 1, 8), (0x3D8, 0x3EE, 2, 1),
      (0x3F4, 0x3F4, 1, - 60), (0x3F7, 0x3F7, 1, 1), (0x3F9, 0x3F9, 1, - 7),
      (0x3FA, 0x3FA, 1, 1), (0x3FD, 0x3FF, 1, - 130), (0x400, 0x40F, 1, 80),
      (0x410, 0x42F, 1, 32), (0x460, 0x480, 2, 1), (0x48A, 0x4BE, 2, 1), (0x4C0, 0x4C0, 1, 15),
      (0x4C1, 0x4CD, 2, 1), (0x4D0, 0x52E, 2, 1), (0x531, 0x556, 1, 48),
      (0x10A0, 0x10C5, 1, 7264), (0x10C7, 0x10C7, 1, 7264), (0x10CD, 0x10CD, 1, 7264),
      (0x13A0, 0x13EF, 1, 38864), (0x13F0, 0x13F5, 1, 8), (0x1C90, 0x1CBA, 1, - 3008),
      (0x1CBD, 0x1CBF, 1, - 3008), (0x1E00, 0x1E94, 2, 1), (0x1E9E, 0x1E9E, 1, - 7615),
      (0x1EA0, 0x1EFE, 2, 1), (0x1F08, 0x1F0F, 1, - 8), (0x1F18, 0x1F1D, 1, - 8),
      (0x1F28, 0x1F2F, 1, - 8), (0x1F38, 0x1F3F, 1, - 8), (0x1F48, 0x1F4D, 1, - 8),
      (0x1F59, 0x1F5F, 2, - 8), (0x1F68, 0x1F6F, 1, - 8), (0x1F88, 0x1F8F, 1, - 8),
      (0x1F98, 0x1F9F, 1, - 8), (0x1FA8, 0x1FAF, 1, - 8), (0x1FB8, 0x1FB9, 1, - 8),
      (0x1FBA, 0x1FBB, 1, - 74), (0x1FBC, 0x1FBC, 1, - 9), (0x1FC8, 0x1FCB, 1, - 86),
      (0x1FCC, 0x1FCC, 1, - 9), (0x1FD8, 0x1FD9, 1, - 8), (0x1FDA, 0x1FDB, 1, - 100),
      (0x1FE8, 0x1FE9, 1, - 8), (0x1FEA, 0x1FEB, 1, - 112), (0x1FEC, 0x1FEC, 1, - 7),
      (0x1FF8, 0x1FF9, 1, - 128), (0x1FFA, 0x1FFB, 1, - 126), (0x1FFC, 0x1FFC, 1, - 9),
      (0x2126, 0x2126, 1, - 7517), (0x212A, 0x212A, 1, - 8383), (0x212B, 0x212B, 1, - 8262),
      (0x2132, 0x2132, 1, 28), (0x2160, 0x216F, 1, 16), (0x2183, 0x2183, 1, 1),
      (0x24B6, 0x24CF, 1, 26), (0x2C00, 0x2C2F, 1, 48), (0x2C60, 0x2C60, 1, 1),
      (0x2C62, 0x2C62, 1, - 10743), (0x2C63, 0x2C63, 1, - 3814), (0x2C64, 0x2C64, 1, - 10727),
      (0x2C67, 0x2C6B, 2, 1), (0x2C6D, 0x2C6D, 1, - 10780), (0x2C6E, 0x2C6E, 1, - 10749),
      (0x2C6F, 0x2C6F, 1, - 10783), (0x2C70, 0x2C70, 1, - 10782), (0x2C72, 0x2C72, 1, 1),
      (0x2C75, 0x2C75, 1, 1), (0x2C7E, 0x2C7F, 1, - 10815), (0x2C80, 0x2CE2, 2, 1),
      (0x2CEB, 0x2CED, 2, 1), (0x2CF2, 0x2CF2, 1, 1), (0xA640, 0xA66C, 2, 1),
      (0xA680, 0xA69A, 2, 1), (0xA722, 0xA72E, 2, 1), (0xA732, 0xA76E, 2, 1),
      (0xA779, 0xA77B, 2, 1), (0xA77D, 0xA77D, 1, - 35332), (0xA77E, 0xA786, 2, 1),
      (0xA78B, 0xA78B, 1, 1), (0xA78D, 0xA78D, 1, - 42280), (0xA790, 0xA792, 2, 1),
      (0xA796, 0xA7A8, 2, 1), (0xA7AA, 0xA7AA, 1, - 42308), (0xA7AB, 0xA7AB, 1, - 42319),
      (0xA7AC, 0xA7AC, 1, - 42315), (0xA7AD, 0xA7AD, 1, - 42305), (0xA7AE, 0xA7AE, 1, - 42308),
      (0xA7B0, 0xA7B0, 1, - 42258), (0xA7B1, 0xA7B1, 1, - 42282), (0xA7B2, 0xA7B2, 1, - 42261),
      (0xA7B3, 0xA7B3, 1, 928), (0xA7B4, 0xA7C2, 2, 1), (0xA7C4, 0xA7C4, 1, - 48),
      (0xA7C5, 0xA7C5, 1, - 42307), (0xA7C6, 0xA7C6, 1, - 35384), (0xA7C7, 0xA7C9, 2, 1),
      (0xA7D0, 0xA7D0, 1, 1), (0xA7D6, 0xA7D8, 2, 1), (0xA7F5, 0xA7F5, 1, 1),
      (0xFF21, 0xFF3A, 1, 32), (0x10400, 0x10427, 1, 40), (0x104B0, 0x104D3, 1, 40),
      (0x10570, 0x1057A, 1, 39), (0x1057C, 0x1058A, 1, 39), (0x1058C, 0x10592, 1, 39),
      (0x10594, 0x10595, 1, 39), (0x10C80, 0x10CB2, 1, 64), (0x118A0, 0x118BF, 1, 32),
      (0x16E40, 0x16E5F, 1, 32), (0x1E900, 0x1E921, 1, 34)]"

definition caseUpper :: "(int \<times> int \<times> int \<times> int) list" where
  "caseUpper =
     [(0x61, 0x7A, 1, - 32), (0xB5, 0xB5, 1, 743), (0xE0, 0xF6, 1, - 32),
      (0xF8, 0xFE, 1, - 32), (0xFF, 0xFF, 1, 121), (0x101, 0x12F, 2, - 1),
      (0x131, 0x131, 1, - 232), (0x133, 0x137, 2, - 1), (0x13A, 0x148, 2, - 1),
      (0x14B, 0x177, 2, - 1), (0x17A, 0x17E, 2, - 1), (0x17F, 0x17F, 1, - 300),
      (0x180, 0x180, 1, 195), (0x183, 0x185, 2, - 1), (0x188, 0x188, 1, - 1),
      (0x18C, 0x18C, 1, - 1), (0x192, 0x192, 1, - 1), (0x195, 0x195, 1, 97),
      (0x199, 0x199, 1, - 1), (0x19A, 0x19A, 1, 163), (0x19E, 0x19E, 1, 130),
      (0x1A1, 0x1A5, 2, - 1), (0x1A8, 0x1A8, 1, - 1), (0x1AD, 0x1AD, 1, - 1),
      (0x1B0, 0x1B0, 1, - 1), (0x1B4, 0x1B6, 2, - 1), (0x1B9, 0x1B9, 1, - 1),
      (0x1BD, 0x1BD, 1, - 1), (0x1BF, 0x1BF, 1, 56), (0x1C5, 0x1C5, 1, - 1),
      (0x1C6, 0x1C6, 1, - 2), (0x1C8, 0x1C8, 1, - 1), (0x1C9, 0x1C9, 1, - 2),
      (0x1CB, 0x1CB, 1, - 1), (0x1CC, 0x1CC, 1, - 2), (0x1CE, 0x1DC, 2, - 1),
      (0x1DD, 0x1DD, 1, - 79), (0x1DF, 0x1EF, 2, - 1), (0x1F2, 0x1F2, 1, - 1),
      (0x1F3, 0x1F3, 1, - 2), (0x1F5, 0x1F5, 1, - 1), (0x1F9, 0x21F, 2, - 1),
      (0x223, 0x233, 2, - 1), (0x23C, 0x23C, 1, - 1), (0x23F, 0x240, 1, 10815),
      (0x242, 0x242, 1, - 1), (0x247, 0x24F, 2, - 1), (0x250, 0x250, 1, 10783),
      (0x251, 0x251, 1, 10780), (0x252, 0x252, 1, 10782), (0x253, 0x253, 1, - 210),
      (0x254, 0x254, 1, - 206), (0x256, 0x257, 1, - 205), (0x259, 0x259, 1, - 202),
      (0x25B, 0x25B, 1, - 203), (0x25C, 0x25C, 1, 42319), (0x260, 0x260, 1, - 205),
      (0x261, 0x261, 1, 42315), (0x263, 0x263, 1, - 207), (0x265, 0x265, 1, 42280),
      (0x266, 0x266, 1, 42308), (0x268, 0x268, 1, - 209), (0x269, 0x269, 1, - 211),
      (0x26A, 0x26A, 1, 42308), (0x26B, 0x26B, 1, 10743), (0x26C, 0x26C, 1, 42305),
      (0x26F, 0x26F, 1, - 211), (0x271, 0x271, 1, 10749), (0x272, 0x272, 1, - 213),
      (0x275, 0x275, 1, - 214), (0x27D, 0x27D, 1, 10727), (0x280, 0x280, 1, - 218),
      (0x282, 0x282, 1, 42307), (0x283, 0x283, 1, - 218), (0x287, 0x287, 1, 42282),
      (0x288, 0x288, 1, - 218), (0x289, 0x289, 1, - 69), (0x28A, 0x28B, 1, - 217),
      (0x28C, 0x28C, 1, - 71), (0x292, 0x292, 1, - 219), (0x29D, 0x29D, 1, 42261),
      (0x29E, 0x29E, 1, 42258), (0x345, 0x345, 1, 84), (0x371, 0x373, 2, - 1),
      (0x377, 0x377, 1, - 1), (0x37B, 0x37D, 1, 130), (0x3AC, 0x3AC, 1, - 38),
      (0x3AD, 0x3AF, 1, - 37), (0x3B1, 0x3C1, 1, - 32), (0x3C2, 0x3C2, 1, - 31),
      (0x3C3, 0x3CB, 1, - 32), (0x3CC, 0x3CC, 1, - 64), (0x3CD, 0x3CE, 1, - 63),
      (0x3D0, 0x3D0, 1, - 62), (0x3D1, 0x3D1, 1, - 57), (0x3D5, 0x3D5, 1, - 47),
      (0x3D6, 0x3D6, 1, - 54), (0x3D7, 0x3D7, 1, - 8), (0x3D9, 0x3EF, 2, - 1),
      (0x3F0, 0x3F0, 1, - 86), (0x3F1, 0x3F1, 1, - 80), (0x3F2, 0x3F2, 1, 7),
      (0x3F3, 0x3F3, 1, - 116), (0x3F5, 0x3F5, 1, - 96), (0x3F8, 0x3F8, 1, - 1),
      (0x3FB, 0x3FB, 1, - 1), (0x430, 0x44F, 1, - 32), (0x450, 0x45F, 1, - 80),
      (0x461, 0x481, 2, - 1), (0x48B, 0x4BF, 2, - 1), (0x4C2, 0x4CE, 2, - 1),
      (0x4CF, 0x4CF, 1, - 15), (0x4D1, 0x52F, 2, - 1), (0x561, 0x586, 1, - 48),
      (0x10D0, 0x10FA, 1, 3008), (0x10FD, 0x10FF, 1, 3008), (0x13F8, 0x13FD, 1, - 8),
      (0x1C80, 0x1C80, 1, - 6254), (0x1C81, 0x1C81, 1, - 6253), (0x1C82, 0x1C82, 1, - 6244),
      (0x1C83, 0x1C84, 1, - 6242), (0x1C85, 0x1C85, 1, - 6243), (0x1C86, 0x1C86, 1, - 6236),
      (0x1C87, 0x1C87, 1, - 6181), (0x1C88, 0x1C88, 1, 35266), (0x1D79, 0x1D79, 1, 35332),
      (0x1D7D, 0x1D7D, 1, 3814), (0x1D8E, 0x1D8E, 1, 35384), (0x1E01, 0x1E95, 2, - 1),
      (0x1E9B, 0x1E9B, 1, - 59), (0x1EA1, 0x1EFF, 2, - 1), (0x1F00, 0x1F07, 1, 8),
      (0x1F10, 0x1F15, 1, 8), (0x1F20, 0x1F27, 1, 8), (0x1F30, 0x1F37, 1, 8),
      (0x1F40, 0x1F45, 1, 8), (0x1F51, 0x1F57, 2, 8), (0x1F60, 0x1F67, 1, 8),
      (0x1F70, 0x1F71, 1, 74), (0x1F72, 0x1F75, 1, 86), (0x1F76, 0x1F77, 1, 100),
      (0x1F78, 0x1F79, 1, 128), (0x1F7A, 0x1F7B, 1, 112), (0x1F7C, 0x1F7D, 1, 126),
      (0x1F80, 0x1F87, 1, 8), (0x1F90, 0x1F97, 1, 8), (0x1FA0, 0x1FA7, 1, 8),
      (0x1FB0, 0x1FB1, 1, 8), (0x1FB3, 0x1FB3, 1, 9), (0x1FBE, 0x1FBE, 1, - 7205),
      (0x1FC3, 0x1FC3, 1, 9), (0x1FD0, 0x1FD1, 1, 8), (0x1FE0, 0x1FE1, 1, 8),
      (0x1FE5, 0x1FE5, 1, 7), (0x1FF3, 0x1FF3, 1, 9), (0x214E, 0x214E, 1, - 28),
      (0x2170, 0x217F, 1, - 16), (0x2184, 0x2184, 1, - 1), (0x24D0, 0x24E9, 1, - 26),
      (0x2C30, 0x2C5F, 1, - 48), (0x2C61, 0x2C61, 1, - 1), (0x2C65, 0x2C65, 1, - 10795),
      (0x2C66, 0x2C66, 1, - 10792), (0x2C68, 0x2C6C, 2, - 1), (0x2C73, 0x2C73, 1, - 1),
      (0x2C76, 0x2C76, 1, - 1), (0x2C81, 0x2CE3, 2, - 1), (0x2CEC, 0x2CEE, 2, - 1),
      (0x2CF3, 0x2CF3, 1, - 1), (0x2D00, 0x2D25, 1, - 7264), (0x2D27, 0x2D27, 1, - 7264),
      (0x2D2D, 0x2D2D, 1, - 7264), (0xA641, 0xA66D, 2, - 1), (0xA681, 0xA69B, 2, - 1),
      (0xA723, 0xA72F, 2, - 1), (0xA733, 0xA76F, 2, - 1), (0xA77A, 0xA77C, 2, - 1),
      (0xA77F, 0xA787, 2, - 1), (0xA78C, 0xA78C, 1, - 1), (0xA791, 0xA793, 2, - 1),
      (0xA794, 0xA794, 1, 48), (0xA797, 0xA7A9, 2, - 1), (0xA7B5, 0xA7C3, 2, - 1),
      (0xA7C8, 0xA7CA, 2, - 1), (0xA7D1, 0xA7D1, 1, - 1), (0xA7D7, 0xA7D9, 2, - 1),
      (0xA7F6, 0xA7F6, 1, - 1), (0xAB53, 0xAB53, 1, - 928), (0xAB70, 0xABBF, 1, - 38864),
      (0xFF41, 0xFF5A, 1, - 32), (0x10428, 0x1044F, 1, - 40), (0x104D8, 0x104FB, 1, - 40),
      (0x10597, 0x105A1, 1, - 39), (0x105A3, 0x105B1, 1, - 39), (0x105B3, 0x105B9, 1, - 39),
      (0x105BB, 0x105BC, 1, - 39), (0x10CC0, 0x10CF2, 1, - 64), (0x118C0, 0x118DF, 1, - 32),
      (0x16E60, 0x16E7F, 1, - 32), (0x1E922, 0x1E943, 1, - 34)]"

text \<open>
  \<open>caseOrbit\<close>: the runes whose case folding class is not just a lower-case letter
  with its upper-case letter, each with the next rune of its class (the last one with
  the first).
\<close>

definition caseOrbit :: "(int \<times> int) list" where
  "caseOrbit =
     [(0x4B, 0x6B), (0x53, 0x73), (0x6B, 0x212A), (0x73, 0x17F), (0xB5, 0x39C), (0xC5, 0xE5),
      (0xDF, 0x1E9E), (0xE5, 0x212B), (0x130, 0x130), (0x131, 0x131), (0x17F, 0x53),
      (0x1C4, 0x1C5), (0x1C5, 0x1C6), (0x1C6, 0x1C4), (0x1C7, 0x1C8), (0x1C8, 0x1C9),
      (0x1C9, 0x1C7), (0x1CA, 0x1CB), (0x1CB, 0x1CC), (0x1CC, 0x1CA), (0x1F1, 0x1F2),
      (0x1F2, 0x1F3), (0x1F3, 0x1F1), (0x345, 0x399), (0x392, 0x3B2), (0x395, 0x3B5),
      (0x398, 0x3B8), (0x399, 0x3B9), (0x39A, 0x3BA), (0x39C, 0x3BC), (0x3A0, 0x3C0),
      (0x3A1, 0x3C1), (0x3A3, 0x3C2), (0x3A6, 0x3C6), (0x3A9, 0x3C9), (0x3B2, 0x3D0),
      (0x3B5, 0x3F5), (0x3B8, 0x3D1), (0x3B9, 0x1FBE), (0x3BA, 0x3F0), (0x3BC, 0xB5),
      (0x3C0, 0x3D6), (0x3C1, 0x3F1), (0x3C2, 0x3C3), (0x3C3, 0x3A3), (0x3C6, 0x3D5),
      (0x3C9, 0x2126), (0x3D0, 0x392), (0x3D1, 0x3F4), (0x3D5, 0x3A6), (0x3D6, 0x3A0),
      (0x3F0, 0x39A), (0x3F1, 0x3A1), (0x3F4, 0x398), (0x3F5, 0x395), (0x412, 0x432),
      (0x414, 0x434), (0x41E, 0x43E), (0x421, 0x441), (0x422, 0x442), (0x42A, 0x44A),
      (0x432, 0x1C80), (0x434, 0x1C81), (0x43E, 0x1C82), (0x441, 0x1C83), (0x442, 0x1C84),
      (0x44A, 0x1C86), (0x462, 0x463), (0x463, 0x1C87), (0x1C80, 0x412), (0x1C81, 0x414),
      (0x1C82, 0x41E), (0x1C83, 0x421), (0x1C84, 0x1C85), (0x1C85, 0x422), (0x1C86, 0x42A),
      (0x1C87, 0x462), (0x1C88, 0xA64A), (0x1E60, 0x1E61), (0x1E61, 0x1E9B), (0x1E9B, 0x1E60),
      (0x1E9E, 0xDF), (0x1FBE, 0x345), (0x2126, 0x3A9), (0x212A, 0x4B), (0x212B, 0xC5),
      (0xA64A, 0xA64B), (0xA64B, 0x1C88)]"

definition caseDelta :: "(int \<times> int \<times> int \<times> int) list \<Rightarrow> int \<Rightarrow> int" where
  "caseDelta ranges r =
     (case find (\<lambda>(lo, hi, stride, delta). lo \<le> r \<and> r \<le> hi \<and> (r - lo) mod stride = 0) ranges of
        Some (lo, hi, stride, delta) \<Rightarrow> r + delta
      | None \<Rightarrow> r)"

text \<open>\<open>unicode.ToLower\<close>, \<open>unicode.ToUpper\<close> and \<open>unicode.SimpleFold\<close>.\<close>

definition unicode_ToLower :: "int \<Rightarrow> int" where
  "unicode_ToLower r =
     (if r \<le> 0x7F then (if 0x41 \<le> r \<and> r \<le> 0x5A then r + 0x20 else r)
      else caseDelta caseLower r)"

definition unicode_ToUpper :: "int \<Rightarrow> int" where
  "unicode_ToUpper r =
     (if r \<le> 0x7F then (if 0x61 \<le> r \<and> r \<le> 0x7A then r - 0x20 else r)
      else caseDelta caseUpper r)"

definition SimpleFold :: "int \<Rightarrow> int" where
  "SimpleFold r =
     (if r < 0 \<or> MaxRune < r then r
      else case map_of caseOrbit r of
             Some f \<Rightarrow> f
           | None \<Rightarrow> (let l = unicode_ToLower r in if l \<noteq> r then l else unicode_ToUpper r))"

subsection \<open>Package strings: case mapping\<close>

text \<open>
  \<open>strings.Map\<close> (and \<open>bytes.Map\<close>): every rune of the input is mapped and encoded
  again; a negative result drops the rune. An invalid byte of the input comes out as the
  encoding of what \<open>RuneError\<close> is mapped to.
\<close>

definition strings_Map :: "(int \<Rightarrow> int) \<Rightarrow> string \<Rightarrow> string" where
  "strings_Map mapping s =
     concat (map (\<lambda>r. let m = mapping r in if 0 \<le> m then AppendRune m else []) (runes s))"

text \<open>
  \<open>strings.ToLower\<close> (and \<open>bytes.ToLower\<close>): a string of ASCII bytes is lowered byte
  by byte, any other string rune by rune with \<open>unicode.ToLower\<close>.
\<close>

definition ToLower :: "string \<Rightarrow> string" where
  "ToLower s =
     (if list_all (\<lambda>c. (of_char c :: int) < RuneSelf) s then map toLowerByte s
      else strings_Map unicode_ToLower s)"

text \<open>
  \<open>strings.EqualFold\<close>: the strings have the same number of runes, and the runes at
  each position are equal under simple case folding. For two different runes with the
  larger one beyond ASCII, the library walks from the smaller rune through its folding
  class with \<open>SimpleFold\<close> until it returns to the smaller rune or reaches the larger
  one; \<open>foldWalk\<close> is this loop (\<open>None\<close> if it did not end).
\<close>

partial_function (option) foldWalk :: "int \<Rightarrow> int \<Rightarrow> int \<Rightarrow> int option" where
  "foldWalk sr tr r = (if r \<noteq> sr \<and> r < tr then foldWalk sr tr (SimpleFold r) else Some r)"

declare foldWalk.simps [code]

definition equalFoldRune :: "int \<Rightarrow> int \<Rightarrow> bool" where
  "equalFoldRune sr0 tr0 =
     (if tr0 = sr0 then True
      else (let sr = min sr0 tr0; tr = max sr0 tr0
            in if tr < RuneSelf then (0x41 \<le> sr \<and> sr \<le> 0x5A \<and> tr = sr + 0x20)
               else foldWalk sr tr (SimpleFold sr) = Some tr))"

fun EqualFold_loop :: "int list \<Rightarrow> int list \<Rightarrow> bool" where
  "EqualFold_loop [] t = (t = [])"
| "EqualFold_loop (sr # s) [] = False"
| "EqualFold_loop (sr # s) (tr # t) = (equalFoldRune sr tr \<and> EqualFold_loop s t)"

definition EqualFold :: "string \<Rightarrow> string \<Rightarrow> bool" where
  "EqualFold s t = EqualFold_loop (runes s) (runes t)"

section \<open>HTML entity preprocessing (html.go)\<close>

text \<open>
  \<open>entityNameToNumeric\<close>: from the lower-case entity name to its numeric character
  reference.
\<close>

definition entityNameToNumeric :: "(string \<times> string) list" where
  "entityNameToNumeric =
     [(''nbsp'', ''&#160;''), (''mdash'', ''&#8212;''), (''ndash'', ''&#8211;''),
      (''hellip'', ''&#8230;''), (''lsquo'', ''&#8216;''), (''rsquo'', ''&#8217;''),
      (''ldquo'', ''&#8220;''), (''rdquo'', ''&#8221;''), (''copy'', ''&#169;''),
      (''reg'', ''&#174;''), (''trade'', ''&#8482;''), (''bull'', ''&#8226;''),
      (''middot'', ''&#183;''), (''eacute'', ''&#233;''), (''egrave'', ''&#232;''),
      (''ecirc'', ''&#234;''), (''euml'', ''&#235;''), (''aacute'', ''&#225;''),
      (''agrave'', ''&#224;''), (''acirc'', ''&#226;''), (''auml'', ''&#228;''),
      (''iacute'', ''&#237;''), (''igrave'', ''&#236;''), (''icirc'', ''&#238;''),
      (''iuml'', ''&#239;''), (''oacute'', ''&#243;''), (''ograve'', ''&#242;''),
      (''ocirc'', ''&#244;''), (''ouml'', ''&#246;''), (''uacute'', ''&#250;''),
      (''ugrave'', ''&#249;''), (''ucirc'', ''&#251;''), (''uuml'', ''&#252;''),
      (''ntilde'', ''&#241;''), (''ccedil'', ''&#231;''), (''times'', ''&#215;''),
      (''divide'', ''&#247;''), (''deg'', ''&#176;''), (''para'', ''&#182;''),
      (''sect'', ''&#167;''), (''laquo'', ''&#171;''), (''raquo'', ''&#187;''),
      (''iexcl'', ''&#161;''), (''iquest'', ''&#191;'')]"

text \<open>
  \<open>htmlEntityPattern\<close> is the regular expression \<open>(?i)&(nbsp|mdash|...|iquest);\<close>.
  Its alternatives, in the order of the pattern:
\<close>

definition htmlEntityNames :: "string list" where
  "htmlEntityNames =
     [''nbsp'', ''mdash'', ''ndash'', ''hellip'', ''lsquo'', ''rsquo'', ''ldquo'',
      ''rdquo'', ''copy'', ''reg'', ''trade'', ''bull'', ''middot'', ''eacute'',
      ''egrave'', ''ecirc'', ''euml'', ''aacute'', ''agrave'', ''acirc'', ''auml'',
      ''iacute'', ''igrave'', ''icirc'', ''iuml'', ''oacute'', ''ograve'', ''ocirc'',
      ''ouml'', ''uacute'', ''ugrave'', ''ucirc'', ''uuml'', ''ntilde'', ''ccedil'',
      ''times'', ''divide'', ''deg'', ''para'', ''sect'', ''laquo'', ''raquo'', ''iexcl'',
      ''iquest'']"

text \<open>
  One letter of the pattern under the flag \<open>(?i)\<close>: it matches its lower-case and its
  upper-case form and every other code point of its case-folding orbit. Of the letters
  in the pattern only \<open>s\<close> has such a code point, U+017F (the long s, in UTF-8 the bytes
  C5 BF). The result is the input after the matched letter.
\<close>

definition matchFold :: "char \<Rightarrow> string \<Rightarrow> string option" where
  "matchFold c s =
     (case s of
        [] \<Rightarrow> None
      | b # rest \<Rightarrow>
          if toLowerByte b = c then Some rest
          else if c = CHR ''s'' \<and> prefix [CHR 0xC5, CHR 0xBF] s then Some (drop 2 s)
          else None)"

fun matchLiteralFold :: "string \<Rightarrow> string \<Rightarrow> string option" where
  "matchLiteralFold [] s = Some s"
| "matchLiteralFold (c # cs) s =
     (case matchFold c s of None \<Rightarrow> None | Some rest \<Rightarrow> matchLiteralFold cs rest)"

text \<open>
  The group and the closing semicolon: the first alternative that matches and is
  followed by \<open>;\<close> (leftmost-first matching). The result is the input after the \<open>;\<close>.
\<close>

fun matchAlternatives :: "string list \<Rightarrow> string \<Rightarrow> string option" where
  "matchAlternatives [] s = None"
| "matchAlternatives (n # ns) s =
     (case matchLiteralFold n s of
        None \<Rightarrow> matchAlternatives ns s
      | Some r \<Rightarrow> if r \<noteq> [] \<and> hd r = CHR '';'' then Some (tl r) else matchAlternatives ns s)"

text \<open>A match of the pattern at the start of the input: the matched bytes and the rest.\<close>

definition htmlEntityPattern :: "string \<Rightarrow> (string \<times> string) option" where
  "htmlEntityPattern s =
     (if s \<noteq> [] \<and> hd s = CHR ''&'' then
        (case matchAlternatives htmlEntityNames (tl s) of
           None \<Rightarrow> None
         | Some rest \<Rightarrow> Some (take (length s - length rest) s, rest))
      else None)"

text \<open>
  The function handed to \<open>ReplaceAllFunc\<close>: the name between \<open>&\<close> and \<open>;\<close> is
  lowered and looked up; a match without an entry stays as it is.
\<close>

definition replaceEntity :: "string \<Rightarrow> string" where
  "replaceEntity m =
     (let name = ToLower (take (length m - 2) (drop 1 m))
      in case map_of entityNameToNumeric name of
           Some replacement \<Rightarrow> replacement
         | None \<Rightarrow> m)"

text \<open>
  \<open>preprocessHTMLEntities\<close>, with \<open>ReplaceAllFunc\<close> as the scan from left to right:
  at a match the replacement is written and the scan goes on behind the match, otherwise
  the byte is copied.
\<close>

lemma matchFold_shorter: "matchFold c s = Some r \<Longrightarrow> length r < length s"
  by (auto simp: matchFold_def split: list.splits if_splits)

lemma matchLiteralFold_shorter: "matchLiteralFold n s = Some r \<Longrightarrow> length r \<le> length s"
proof (induction n arbitrary: s)
  case Nil
  then show ?case by simp
next
  case (Cons c cs)
  then show ?case
    using matchFold_shorter [of c s] by (fastforce split: option.splits)
qed

lemma matchAlternatives_shorter: "matchAlternatives ns s = Some r \<Longrightarrow> length r < length s"
proof (induction ns)
  case Nil
  then show ?case by simp
next
  case (Cons n ns)
  show ?case
  proof (cases "matchLiteralFold n s")
    case None
    then show ?thesis using Cons by simp
  next
    case (Some r')
    then show ?thesis
      using Cons matchLiteralFold_shorter [OF Some]
      by (cases r') (auto split: if_splits)
  qed
qed

function preprocessHTMLEntities :: "string \<Rightarrow> string" where
  "preprocessHTMLEntities [] = []"
| "preprocessHTMLEntities (c # cs) =
     (case htmlEntityPattern (c # cs) of
        Some (m, rest) \<Rightarrow> replaceEntity m @ preprocessHTMLEntities rest
      | None \<Rightarrow> c # preprocessHTMLEntities cs)"
  by pat_completeness auto
termination
proof (relation "measure length")
  show "wf (measure length)" by simp
next
  fix c cs x m rest
  assume "htmlEntityPattern (c # cs) = Some x" and "(m, rest) = x"
  then have "matchAlternatives htmlEntityNames cs = Some rest"
    by (auto simp: htmlEntityPattern_def split: if_splits option.splits)
  then show "(rest, c # cs) \<in> measure length"
    using matchAlternatives_shorter by fastforce
qed simp

text \<open>
  The names the pattern accepts between \<open>&\<close> and \<open>;\<close>: the byte strings that one of
  the alternatives matches completely.
\<close>

definition entityName :: "string \<Rightarrow> bool" where
  "entityName p = list_ex (\<lambda>n. matchLiteralFold n p = Some []) htmlEntityNames"

section \<open>Safe archive access (ziputil.go)\<close>

text \<open>
  \<open>isSafePath\<close>: the cleaned path is neither absolute nor \<open>..\<close> nor below \<open>..\<close>.
\<close>

definition isSafePath :: "string \<Rightarrow> bool" where
  "isSafePath p =
     (let cleaned = Clean p
      in if HasPrefix cleaned ''/'' then False
         else if cleaned = ''..'' \<or> HasPrefix cleaned ''../'' then False
         else True)"

text \<open>
  A cleaned path that leaves its root: it is \<open>..\<close> or starts with \<open>../\<close>.
\<close>

definition dd_prefixed :: "string \<Rightarrow> bool" where
  "dd_prefixed out = (out = ''..'' \<or> prefix ''../'' out)"

definition resolveRelativePath :: "string \<Rightarrow> string \<Rightarrow> string" where
  "resolveRelativePath basePath href0 =
     (let href = TrimSpace href0
      in if HasPrefix href ''/'' then []
         else let href = (case PathUnescape href of Some decoded \<Rightarrow> decoded | None \<Rightarrow> href);
                  dir = Dir basePath;
                  joined = Join [dir, href];
                  cleaned = Clean joined
              in if \<not> isSafePath cleaned then [] else cleaned)"

text \<open>
  The errors of the package (errors.go): the five sentinel errors, and one constructor
  for each error that the code builds with \<open>fmt.Errorf\<close>, named after its message.
\<close>

datatype epub_error =
    ErrDRMProtected
  | ErrInvalidEPub
  | ErrInvalidChapter
  | ErrFileNotFound
  | ErrNoCover
  | UnsafeEntryPath
  | EntryTooLarge
  | OpenEntryFailed
  | ReadEntryFailed
  | DecompressedSizeExceedsLimit

text \<open>
  An entry of the archive (\<open>zip.File\<close>): its name, the decompressed size its header
  declares (a \<open>uint64\<close>), and what opening and reading it gives. \<open>openFails\<close> says
  that \<open>f.Open()\<close> returns an error. Otherwise \<open>content\<close> is what the decompressor
  delivers, and \<open>readFails\<close> says that the stream does not end well: the decompressor
  reports corrupt data after the last byte, or the checksum of the entry does not match.
\<close>

record zipFile =
  Name :: string
  UncompressedSize64 :: nat
  openFails :: bool
  content :: string
  readFails :: bool

text \<open>
  The value of the conversion \<open>uint64(x)\<close> of an \<open>int64\<close>, and the wrap-around of
  \<open>int64\<close> arithmetic.
\<close>

definition uint64 :: "int \<Rightarrow> int" where
  "uint64 i = i mod 2 ^ 64"

definition int64 :: "int \<Rightarrow> int" where
  "int64 i = (i + 2 ^ 63) mod 2 ^ 64 - 2 ^ 63"

definition maxDecompressSize :: int where
  "maxDecompressSize = 256 * 1024 * 1024"

definition findFileInsensitive :: "zipFile list \<Rightarrow> string \<Rightarrow> zipFile option" where
  "findFileInsensitive zr name =
     (case find (\<lambda>f. Name f = name) zr of
        Some f \<Rightarrow> Some f
      | None \<Rightarrow> find (\<lambda>f. ToLower (Name f) = ToLower name) zr)"

definition stripBOM :: "string \<Rightarrow> string" where
  "stripBOM data =
     (if length data \<ge> 3 \<and> data ! 0 = CHR 0xEF \<and> data ! 1 = CHR 0xBB \<and> data ! 2 = CHR 0xBF
      then drop 3 data else data)"

text \<open>
  \<open>io.ReadAll(io.LimitReader(rc, n))\<close> on the reader \<open>rc\<close> that \<open>f.Open()\<close>
  returns. The limited reader hands out at most \<open>n\<close> bytes and then reports the end
  of file without touching \<open>rc\<close> again; with \<open>n \<le> 0\<close> it hands out nothing. The
  reader \<open>rc\<close> of the archive library counts the bytes it passes on and compares them
  with the declared size: as soon as more bytes than declared have arrived it fails
  (\<open>zip.ErrFormat\<close>); when the stream ends with fewer bytes than declared it fails
  (\<open>io.ErrUnexpectedEOF\<close>); and at the end of the stream it reports the error of the
  decompressor or of the checksum comparison. The result is the data, or \<open>None\<close> for an
  error of the reader (the data that \<open>io.ReadAll\<close> returns with an error depends on
  how the stream is cut into reads, and the caller drops it), together with a bound on
  the number of bytes taken from the decompressor. (\<open>readZipFileWithLimit\<close> calls
  this with \<open>n \<le> 0\<close> or with \<open>n\<close> above the declared size only; when \<open>n\<close> bytes
  are handed out and the stream ends just there, the model takes the end as not seen.)
\<close>

definition ReadAll_LimitReader :: "zipFile \<Rightarrow> int \<Rightarrow> string option \<times> nat" where
  "ReadAll_LimitReader f n =
     (let size = int (length (content f)); declared = int (UncompressedSize64 f)
      in if n \<le> 0 then (Some [], 0)
         else if declared < min size n then (None, nat (min size n))
         else if n \<le> size then (Some (take (nat n) (content f)), nat n)
         else if readFails f \<or> size \<noteq> declared then (None, length (content f))
         else (Some (content f), length (content f)))"

text \<open>
  \<open>readZipFileWithLimit\<close>; \<open>limit\<close> is an \<open>int64\<close>. The second component of the
  result bounds the number of bytes taken from the decompression stream.
\<close>

definition readZipFileWithLimit :: "zipFile \<Rightarrow> int \<Rightarrow> (epub_error + string) \<times> nat" where
  "readZipFileWithLimit f limit =
     (if \<not> isSafePath (Name f) then (Inl UnsafeEntryPath, 0)
      else if int (UncompressedSize64 f) > uint64 limit then (Inl EntryTooLarge, 0)
      else if openFails f then (Inl OpenEntryFailed, 0)
      else case ReadAll_LimitReader f (int64 (limit + 1)) of
             (None, taken) \<Rightarrow> (Inl ReadEntryFailed, taken)
           | (Some data, taken) \<Rightarrow>
               if int64 (int (length data)) > limit then (Inl DecompressedSizeExceedsLimit, taken)
               else (Inr data, taken))"

definition readZipFile :: "zipFile \<Rightarrow> epub_error + string" where
  "readZipFile f = fst (readZipFileWithLimit f maxDecompressSize)"




section \<open>Text extraction (html.go)\<close>

text \<open>
  The HTML tokenizer is not part of the package. Its tokens, up to its \<open>ErrorToken\<close>,
  are modelled by their type, the tag name (which the tokenizer hands out in lower case),
  the attributes (key and value) in the order of the tag, and for a text token or a
  comment token its text (which the tokenizer hands out with the character references
  decoded). The package
  always tokenizes a byte slice in memory (\<open>bytes.NewReader\<close>) and sets no buffer limit,
  so the error behind the \<open>ErrorToken\<close> is \<open>io.EOF\<close>: the tokens end with the data.
\<close>

datatype TokenType =
  TextToken | StartTagToken | EndTagToken | SelfClosingTagToken | CommentToken | DoctypeToken

record html_token =
  tok_Type :: TokenType
  tok_Name :: string
  tok_Attr :: "(string \<times> string) list"
  tok_Data :: string













section \<open>DRM detection (drm.go)\<close>

definition encryptionFilePath :: string where
  "encryptionFilePath = ''META-INF/encryption.xml''"

definition sinfFilePath :: string where
  "sinfFilePath = ''META-INF/sinf.xml''"

definition fontObfuscationAlgorithms :: "string \<Rightarrow> bool" where
  "fontObfuscationAlgorithms algo =
     (algo = ''http://www.idpf.org/2008/embedding'' \<or> algo = ''http://ns.adobe.com/pdf/enc#RC'')"

definition drmSignatures :: "string list" where
  "drmSignatures = [''http://ns.adobe.com/adept'', ''http://readium.org/2014/01/lcp'']"

text \<open>
  The decoded encryption descriptor: for each \<open>EncryptedData\<close> element the
  \<open>Algorithm\<close> attribute of its \<open>EncryptionMethod\<close> and the inner XML of its
  \<open>KeyInfo\<close>.
\<close>

record xmlEncryptedData =
  Algorithm :: string
  KeyInfo_InnerXML :: string

definition isDRMSignature :: "string \<Rightarrow> bool" where
  "isDRMSignature s = list_ex (\<lambda>sig. Contains s sig) drmSignatures"

text \<open>The loop over \<open>enc.EncryptedData\<close>, with the variable \<open>fontObfuscation\<close>.\<close>

fun checkDRM_loop :: "xmlEncryptedData list \<Rightarrow> bool \<Rightarrow> epub_error + bool" where
  "checkDRM_loop [] fontObfuscation = Inr fontObfuscation"
| "checkDRM_loop (ed # rest) fontObfuscation =
     (let algo = Algorithm ed
      in if fontObfuscationAlgorithms algo then checkDRM_loop rest True
         else if isDRMSignature algo then Inl ErrDRMProtected
         else if isDRMSignature (KeyInfo_InnerXML ed) then Inl ErrDRMProtected
         else Inl ErrDRMProtected)"

text \<open>
  \<open>checkDRM\<close>. The XML decoder is not part of the package: \<open>unmarshal\<close> stands for
  \<open>xml.Unmarshal\<close> into \<open>xmlEncryption\<close>, giving the \<open>EncryptedData\<close> elements or
  \<open>None\<close> when the decoder reports an error. The result is the error, or the
  \<open>fontObfuscation\<close> flag (every error return of the source carries \<open>false\<close>).
\<close>

definition checkDRM ::
  "(string \<Rightarrow> xmlEncryptedData list option) \<Rightarrow> zipFile list \<Rightarrow> epub_error + bool" where
  "checkDRM unmarshal zr =
     (if findFileInsensitive zr sinfFilePath \<noteq> None then Inl ErrDRMProtected
      else case findFileInsensitive zr encryptionFilePath of
             None \<Rightarrow> Inr False
           | Some f \<Rightarrow>
               (case readZipFile f of
                  Inl err \<Rightarrow> Inl err
                | Inr data \<Rightarrow>
                    (case unmarshal (stripBOM data) of
                       None \<Rightarrow> Inl ErrDRMProtected
                     | Some enc \<Rightarrow> if length enc = 0 then Inr False else checkDRM_loop enc False)))"

text \<open>
  The step of \<open>initBook\<close> that runs the detector: an error ends the opening, and font
  obfuscation only appends a warning.
\<close>

definition fontObfuscationWarning :: string where
  "fontObfuscationWarning = ''font obfuscation detected; obfuscated fonts may not render correctly''"

definition initBook_checkDRM ::
  "(string \<Rightarrow> xmlEncryptedData list option) \<Rightarrow> zipFile list \<Rightarrow> string list
     \<Rightarrow> epub_error + string list" where
  "initBook_checkDRM unmarshal zr warnings =
     (case checkDRM unmarshal zr of
        Inl err \<Rightarrow> Inl err
      | Inr fontObfuscation \<Rightarrow>
          Inr (if fontObfuscation then warnings @ [fontObfuscationWarning] else warnings))"

text \<open>
  Example archives: one with an encryption descriptor that holds one IDPF font
  obfuscation entry, with what the decoder gives for it; one with the FairPlay
  marker under a name of different case; and one with the marker under a name whose
  \<open>I\<close> is the letter U+0130 (in UTF-8 the bytes C4 B0), which \<open>strings.ToLower\<close>
  lowers to \<open>i\<close>.
\<close>

definition encryptionDescriptor :: string where
  "encryptionDescriptor =
     ''<encryption><EncryptedData><EncryptionMethod Algorithm='http://www.idpf.org/2008/embedding'/>''
     @ ''</EncryptedData></encryption>''"

definition idpfObfuscation :: "xmlEncryptedData list" where
  "idpfObfuscation =
     [\<lparr>Algorithm = ''http://www.idpf.org/2008/embedding'', KeyInfo_InnerXML = []\<rparr>]"

definition descriptorUnmarshal :: "string \<Rightarrow> xmlEncryptedData list option" where
  "descriptorUnmarshal data = (if data = encryptionDescriptor then Some idpfObfuscation else None)"

definition obfuscatedArchive :: "zipFile list" where
  "obfuscatedArchive =
     [\<lparr>Name = ''mimetype'', UncompressedSize64 = 20, openFails = False,
        content = ''application/epub+zip'', readFails = False\<rparr>,
      \<lparr>Name = ''META-INF/encryption.xml'', UncompressedSize64 = length encryptionDescriptor,
        openFails = False, content = encryptionDescriptor, readFails = False\<rparr>]"

definition fairPlayArchive :: "zipFile list" where
  "fairPlayArchive =
     [\<lparr>Name = ''mimetype'', UncompressedSize64 = 20, openFails = False,
        content = ''application/epub+zip'', readFails = False\<rparr>,
      \<lparr>Name = ''META-INF/SINF.xml'', UncompressedSize64 = 7, openFails = False,
        content = ''<sinf/>'', readFails = False\<rparr>]"

definition dottedArchive :: "zipFile list" where
  "dottedArchive =
     [\<lparr>Name = ''mimetype'', UncompressedSize64 = 20, openFails = False,
        content = ''application/epub+zip'', readFails = False\<rparr>,
      \<lparr>Name = ''META-INF/S'' @ [CHR 0xC4, CHR 0xB0] @ ''NF.XML'', UncompressedSize64 = 7,
        openFails = False, content = ''<sinf/>'', readFails = False\<rparr>]"

section \<open>The package descriptor (opf.go)\<close>

text \<open>A Dublin Core element and a \<open>meta\<close> element of the package metadata.\<close>

record opfDCElement =
  dc_Value :: string
  dc_ID :: string
  dc_FileAs :: string
  dc_Role :: string
  dc_Scheme :: string

record opfMeta =
  meta_Name :: string
  meta_Content :: string
  meta_Property :: string
  meta_Refines :: string
  meta_Scheme :: string
  meta_Value :: string

record opfManifestItem =
  item_ID :: string
  item_Href :: string
  item_MediaType :: string
  item_Properties :: string

record opfManifest =
  Items :: "opfManifestItem list"

record opfMetadata =
  md_Titles :: "opfDCElement list"
  md_Creators :: "opfDCElement list"
  md_Languages :: "opfDCElement list"
  md_Identifiers :: "opfDCElement list"
  md_Publishers :: "opfDCElement list"
  md_Dates :: "opfDCElement list"
  md_Descriptions :: "opfDCElement list"
  md_Subjects :: "opfDCElement list"
  md_Rights :: "opfDCElement list"
  md_Sources :: "opfDCElement list"
  md_Metas :: "opfMeta list"

record opfSpineItemRef =
  ref_IDRef :: string
  ref_Linear :: string

record opfSpine =
  spine_Toc :: string
  spine_ItemRefs :: "opfSpineItemRef list"

record opfGuideReference =
  gref_Type :: string
  gref_Title :: string
  gref_Href :: string

record opfGuide =
  guide_References :: "opfGuideReference list"

record opfPackage =
  pkg_Version :: string
  pkg_UniqueIdentifier :: string
  pkg_Metadata :: opfMetadata
  pkg_Manifest :: opfManifest
  pkg_Spine :: opfSpine
  pkg_Guide :: opfGuide

record guideReference =
  gr_Type :: string
  gr_Title :: string
  gr_Href :: string

text \<open>\<open>spineItem\<close> (types.go).\<close>

record spineItem =
  si_ID :: string
  si_Href :: string
  si_MediaType :: string
  si_Linear :: bool
  si_IDRef :: string

record manifestItem =
  mi_ID :: string
  mi_Href :: string
  mi_MediaType :: string
  mi_Properties :: string

text \<open>The struct literal built in the loop body of \<open>buildManifestMaps\<close>.\<close>

definition newManifestItem :: "opfManifestItem \<Rightarrow> manifestItem" where
  "newManifestItem item =
     \<lparr>mi_ID = item_ID item, mi_Href = item_Href item,
      mi_MediaType = item_MediaType item, mi_Properties = item_Properties item\<rparr>"

text \<open>
  The loop \<open>for _, item := range manifest.Items\<close>: both maps are assigned
  unconditionally (\<open>byID[item.ID] = mi; byHref[item.Href] = mi\<close>).
\<close>

fun buildManifestMaps_loop ::
  "opfManifestItem list \<Rightarrow> (string \<rightharpoonup> manifestItem) \<times> (string \<rightharpoonup> manifestItem)
     \<Rightarrow> (string \<rightharpoonup> manifestItem) \<times> (string \<rightharpoonup> manifestItem)" where
  "buildManifestMaps_loop [] (byID, byHref) = (byID, byHref)"
| "buildManifestMaps_loop (item # rest) (byID, byHref) =
     buildManifestMaps_loop rest
       (byID(item_ID item \<mapsto> newManifestItem item), byHref(item_Href item \<mapsto> newManifestItem item))"

definition buildManifestMaps ::
  "opfManifest \<Rightarrow> (string \<rightharpoonup> manifestItem) \<times> (string \<rightharpoonup> manifestItem)" where
  "buildManifestMaps manifest = buildManifestMaps_loop (Items manifest) (Map.empty, Map.empty)"

text \<open>
  \<open>buildSpine\<close>: an \<open>itemref\<close> whose id the manifest does not know keeps empty
  \<open>ID\<close>, \<open>Href\<close> and \<open>MediaType\<close>.
\<close>

definition newSpineItem :: "opfSpineItemRef \<Rightarrow> (string \<rightharpoonup> manifestItem) \<Rightarrow> spineItem" where
  "newSpineItem ref manifestByID =
     (case manifestByID (ref_IDRef ref) of
        Some mi \<Rightarrow>
          \<lparr>si_ID = mi_ID mi, si_Href = mi_Href mi, si_MediaType = mi_MediaType mi,
           si_Linear = (ref_Linear ref \<noteq> ''no''), si_IDRef = ref_IDRef ref\<rparr>
      | None \<Rightarrow>
          \<lparr>si_ID = [], si_Href = [], si_MediaType = [],
           si_Linear = (ref_Linear ref \<noteq> ''no''), si_IDRef = ref_IDRef ref\<rparr>)"

definition buildSpine :: "opfSpine \<Rightarrow> (string \<rightharpoonup> manifestItem) \<Rightarrow> spineItem list" where
  "buildSpine spine manifestByID = map (\<lambda>ref. newSpineItem ref manifestByID) (spine_ItemRefs spine)"

definition buildGuide :: "opfGuide \<Rightarrow> guideReference list" where
  "buildGuide guide =
     map (\<lambda>r. \<lparr>gr_Type = gref_Type r, gr_Title = gref_Title r, gr_Href = gref_Href r\<rparr>)
       (guide_References guide)"

text \<open>A manifest with two items that share the id \<open>a\<close> and the href \<open>x.png\<close>.\<close>

definition dupManifest :: opfManifest where
  "dupManifest = \<lparr>Items =
     [\<lparr>item_ID = ''a'', item_Href = ''x.png'', item_MediaType = ''image/png'', item_Properties = ''''\<rparr>,
      \<lparr>item_ID = ''a'', item_Href = ''x.png'', item_MediaType = ''image/jpeg'', item_Properties = ''''\<rparr>]\<rparr>"

section \<open>Metadata aggregation (metadata.go)\<close>















section \<open>The book (types.go, epub.go)\<close>

text \<open>
  \<open>TOCItem\<close>: an entry of the navigation tree. \<open>SpineIndex\<close> and \<open>SpineEndIndex\<close>
  are -1 when no spine item is associated.
\<close>

datatype TOCItem =
  TOCItem (Title: string) (Href: string) (Children: "TOCItem list")
    (SpineIndex: int) (SpineEndIndex: int)

text \<open>
  \<open>Chapter\<close>. The field \<open>book\<close>, the reference back to the book that built the
  chapter, is left out: the book is passed to every function that reads through it.
\<close>

record Chapter =
  ch_Title :: string
  ch_Href :: string
  ch_ID :: string
  ch_Linear :: bool
  ch_IsLicense :: bool

record CoverImage =
  ci_Path :: string
  ci_MediaType :: string
  ci_Data :: string

text \<open>
  \<open>Book\<close>. The fields \<open>closer\<close> and \<open>metadata\<close> play no part here and are left
  out. A nil slice and an empty slice are both the empty list, except for \<open>chapters\<close>,
  where nil (\<open>None\<close>) says that the chapter list has not been built.
\<close>

record Book =
  bk_zip :: "zipFile list"
  bk_zipExact :: "string \<rightharpoonup> zipFile"
  bk_zipLower :: "string \<rightharpoonup> zipFile"
  bk_opfPath :: string
  bk_opfDir :: string
  bk_opf :: opfPackage
  bk_manifestByID :: "string \<rightharpoonup> manifestItem"
  bk_manifestByHref :: "string \<rightharpoonup> manifestItem"
  bk_spine :: "spineItem list"
  bk_guide :: "guideReference list"
  bk_toc :: "TOCItem list"
  bk_landmarks :: "TOCItem list"
  bk_chapters :: "Chapter list option"
  bk_warnings :: "string list"
  bk_licenseDetected :: bool

text \<open>\<open>buildZipIndex\<close>: the first entry with a name, or a lowered name, wins.\<close>

fun buildZipIndex_loop ::
  "zipFile list \<Rightarrow> (string \<rightharpoonup> zipFile) \<times> (string \<rightharpoonup> zipFile)
     \<Rightarrow> (string \<rightharpoonup> zipFile) \<times> (string \<rightharpoonup> zipFile)" where
  "buildZipIndex_loop [] (zipExact, zipLower) = (zipExact, zipLower)"
| "buildZipIndex_loop (f # fs) (zipExact, zipLower) =
     buildZipIndex_loop fs
       (if zipExact (Name f) = None then zipExact(Name f \<mapsto> f) else zipExact,
        if zipLower (ToLower (Name f)) = None then zipLower(ToLower (Name f) \<mapsto> f) else zipLower)"

definition buildZipIndex :: "Book \<Rightarrow> Book" where
  "buildZipIndex b =
     (let (zipExact, zipLower) = buildZipIndex_loop (bk_zip b) (Map.empty, Map.empty)
      in b\<lparr>bk_zipExact := zipExact, bk_zipLower := zipLower\<rparr>)"

definition findFile :: "Book \<Rightarrow> string \<Rightarrow> zipFile option" where
  "findFile b name =
     (case bk_zipExact b name of
        Some f \<Rightarrow> Some f
      | None \<Rightarrow> bk_zipLower b (ToLower name))"

definition ReadFile :: "Book \<Rightarrow> string \<Rightarrow> epub_error + string" where
  "ReadFile b name =
     (case findFile b name of
        None \<Rightarrow> Inl ErrFileNotFound
      | Some f \<Rightarrow> readZipFile f)"

text \<open>\<open>readFile\<close>, the method behind the interface \<open>bookReader\<close>.\<close>

definition readFile :: "Book \<Rightarrow> string \<Rightarrow> epub_error + string" where
  "readFile b name = ReadFile b name"

definition resolveOPFPath :: "Book \<Rightarrow> string \<Rightarrow> string" where
  "resolveOPFPath b href =
     (if href = [] then []
      else if bk_opfDir b = ''.'' then href
      else Join [bk_opfDir b, href])"

section \<open>Navigation (toc.go)\<close>

subsection \<open>The decoded documents\<close>

text \<open>
  A node of the tree that \<open>html.Parse\<close> builds: its type, its data (the tag name of
  an element, the text of a text node), its attributes (key and value) and its
  children in document order.
\<close>

datatype NodeType = ErrorNode | TextNode | DocumentNode | ElementNode | CommentNode | DoctypeNode

datatype html_node =
  Node (node_Type: NodeType) (node_Data: string) (node_Attr: "(string \<times> string) list")
    (node_Children: "html_node list")

text \<open>A \<open>navPoint\<close> as \<open>xml.Unmarshal\<close> decodes it into \<open>ncxNavPoint\<close>.\<close>

datatype ncxNavPoint =
  NavPoint (np_ID: string) (np_PlayOrder: string) (np_LabelText: string) (np_ContentSrc: string)
    (np_Children: "ncxNavPoint list")

subsection \<open>The NCX document\<close>

fun convertNavPoints :: "ncxNavPoint list \<Rightarrow> string \<Rightarrow> TOCItem list" where
  "convertNavPoints [] ncxPath = []"
| "convertNavPoints (NavPoint ident playOrder labelText contentSrc children # points) ncxPath =
     TOCItem (TrimSpace labelText)
       (let src = TrimSpace contentSrc
        in if src \<noteq> [] then resolveRelativePath ncxPath src else [])
       (convertNavPoints children ncxPath) (- 1) (- 1)
     # convertNavPoints points ncxPath"

text \<open>
  \<open>parseNCX\<close>; \<open>unmarshal\<close> stands for \<open>xml.Unmarshal\<close> into \<open>ncxDocument\<close> and
  gives the \<open>navPoint\<close> elements of the \<open>navMap\<close>, or \<open>None\<close> for a decoding error.
\<close>

definition parseNCX ::
  "(string \<Rightarrow> ncxNavPoint list option) \<Rightarrow> string \<Rightarrow> string \<Rightarrow> TOCItem list option" where
  "parseNCX unmarshal data ncxPath =
     (case unmarshal (stripBOM (preprocessHTMLEntities data)) of
        None \<Rightarrow> None
      | Some navPoints \<Rightarrow> Some (convertNavPoints navPoints ncxPath))"

subsection \<open>The XHTML navigation document\<close>

fun navGetAttr_loop :: "(string \<times> string) list \<Rightarrow> string \<Rightarrow> string" where
  "navGetAttr_loop [] key = []"
| "navGetAttr_loop ((k, v) # attrs) key = (if k = key then v else navGetAttr_loop attrs key)"

definition navGetAttr :: "html_node \<Rightarrow> string \<Rightarrow> string" where
  "navGetAttr n key = navGetAttr_loop (node_Attr n) key"

definition hasEpubType :: "html_node \<Rightarrow> string \<Rightarrow> bool" where
  "hasEpubType n typeName = list_ex (\<lambda>t. t = typeName) (Fields (navGetAttr n ''epub:type''))"

text \<open>\<open>nodeTextContent\<close>: the text nodes below a node, concatenated.\<close>

fun nodeTextContent :: "html_node \<Rightarrow> string"
  and nodeTextContent_children :: "html_node list \<Rightarrow> string" where
  "nodeTextContent (Node t d attrs children) =
     (if t = TextNode then d else nodeTextContent_children children)"
| "nodeTextContent_children [] = []"
| "nodeTextContent_children (c # cs) = nodeTextContent c @ nodeTextContent_children cs"

text \<open>
  \<open>findFirstChildElement\<close>: the first descendant element with the tag, depth first;
  the function on a list of nodes is its loop over the children.
\<close>

fun findFirstChildElement_children :: "html_node list \<Rightarrow> string \<Rightarrow> html_node option" where
  "findFirstChildElement_children [] tag = None"
| "findFirstChildElement_children (Node t d attrs children # cs) tag =
     (if t = ElementNode \<and> d = tag then Some (Node t d attrs children)
      else (case findFirstChildElement_children children tag of
              Some found \<Rightarrow> Some found
            | None \<Rightarrow> findFirstChildElement_children cs tag))"

definition findFirstChildElement :: "html_node \<Rightarrow> string \<Rightarrow> html_node option" where
  "findFirstChildElement n tag = findFirstChildElement_children (node_Children n) tag"

text \<open>
  \<open>parseNavOL\<close> and \<open>parseNavLI\<close>, as their loops over the children of the \<open>ol\<close> and
  of the \<open>li\<close>; the loop of \<open>parseNavLI\<close> carries the item it fills, which starts as
  \<open>TOCItem{SpineIndex: -1, SpineEndIndex: -1}\<close>.
\<close>

fun parseNavOL_children :: "html_node list \<Rightarrow> string \<Rightarrow> TOCItem list"
  and parseNavLI_children :: "html_node list \<Rightarrow> string \<Rightarrow> TOCItem \<Rightarrow> TOCItem" where
  "parseNavOL_children [] basePath = []"
| "parseNavOL_children (Node t d attrs children # cs) basePath =
     (if t = ElementNode \<and> d = ''li''
      then parseNavLI_children children basePath (TOCItem [] [] [] (- 1) (- 1))
             # parseNavOL_children cs basePath
      else parseNavOL_children cs basePath)"
| "parseNavLI_children [] basePath item = item"
| "parseNavLI_children (Node t d attrs children # cs) basePath item =
     (if t \<noteq> ElementNode then parseNavLI_children cs basePath item
      else if d = ''a'' then
        (if Href item = [] then
           (let href = navGetAttr (Node t d attrs children) ''href'';
                resolved = (if href \<noteq> [] then resolveRelativePath basePath href else [])
            in parseNavLI_children cs basePath
                 (TOCItem (TrimSpace (nodeTextContent (Node t d attrs children)))
                    (if resolved \<noteq> [] then resolved else Href item)
                    (Children item) (SpineIndex item) (SpineEndIndex item)))
         else parseNavLI_children cs basePath item)
      else if d = ''span'' then
        (if Title item = [] then
           parseNavLI_children cs basePath
             (TOCItem (TrimSpace (nodeTextContent (Node t d attrs children))) (Href item)
                (Children item) (SpineIndex item) (SpineEndIndex item))
         else parseNavLI_children cs basePath item)
      else if d = ''ol'' then
        parseNavLI_children cs basePath
          (TOCItem (Title item) (Href item) (parseNavOL_children children basePath)
             (SpineIndex item) (SpineEndIndex item))
      else parseNavLI_children cs basePath item)"

definition parseNavOL :: "html_node \<Rightarrow> string \<Rightarrow> TOCItem list" where
  "parseNavOL ol basePath = parseNavOL_children (node_Children ol) basePath"

text \<open>\<open>findNavs\<close>: the \<open>nav\<close> elements of the document, in document order.\<close>

fun findNavs :: "html_node \<Rightarrow> html_node list"
  and findNavs_children :: "html_node list \<Rightarrow> html_node list" where
  "findNavs (Node t d attrs children) =
     (if t = ElementNode \<and> d = ''nav'' then [Node t d attrs children] else [])
     @ findNavs_children children"
| "findNavs_children [] = []"
| "findNavs_children (c # cs) = findNavs c @ findNavs_children cs"

text \<open>The loop over the \<open>nav\<close> elements, with the results \<open>toc\<close> and \<open>landmarks\<close>.\<close>

fun parseNavDocument_loop ::
  "html_node list \<Rightarrow> string \<Rightarrow> TOCItem list \<times> TOCItem list \<Rightarrow> TOCItem list \<times> TOCItem list" where
  "parseNavDocument_loop [] basePath (tocItems, landmarkItems) = (tocItems, landmarkItems)"
| "parseNavDocument_loop (nav # navs) basePath (tocItems, landmarkItems) =
     (if hasEpubType nav ''toc'' then
        (case findFirstChildElement nav ''ol'' of
           Some ol \<Rightarrow> parseNavDocument_loop navs basePath (parseNavOL ol basePath, landmarkItems)
         | None \<Rightarrow> parseNavDocument_loop navs basePath (tocItems, landmarkItems))
      else if hasEpubType nav ''landmarks'' then
        (case findFirstChildElement nav ''ol'' of
           Some ol \<Rightarrow> parseNavDocument_loop navs basePath (tocItems, parseNavOL ol basePath)
         | None \<Rightarrow> parseNavDocument_loop navs basePath (tocItems, landmarkItems))
      else parseNavDocument_loop navs basePath (tocItems, landmarkItems))"

text \<open>
  \<open>parseNavDocument\<close>; \<open>htmlParse\<close> stands for \<open>html.Parse\<close> and gives the document
  node, or \<open>None\<close> for an error.
\<close>

definition parseNavDocument ::
  "(string \<Rightarrow> html_node option) \<Rightarrow> string \<Rightarrow> string \<Rightarrow> (TOCItem list \<times> TOCItem list) option" where
  "parseNavDocument htmlParse data basePath =
     (case htmlParse data of
        None \<Rightarrow> None
      | Some doc \<Rightarrow> Some (parseNavDocument_loop (findNavs doc) basePath ([], [])))"

subsection \<open>Spine indices and spine ranges\<close>

definition hrefWithoutFragment :: "string \<Rightarrow> string" where
  "hrefWithoutFragment href =
     (let idx = IndexByte href CHR ''#'' in if 0 \<le> idx then take (nat idx) href else href)"

text \<open>
  \<open>assignSpineIndices\<close> writes \<open>SpineIndex\<close> into the items of the tree in place; the
  model returns the tree with the indices written.
\<close>

fun assignSpineIndices :: "TOCItem list \<Rightarrow> (string \<rightharpoonup> int) \<Rightarrow> TOCItem list" where
  "assignSpineIndices [] spineMap = []"
| "assignSpineIndices (TOCItem title href children spineIndex spineEndIndex # items) spineMap =
     TOCItem title href (assignSpineIndices children spineMap)
       (if href \<noteq> [] then
          (case spineMap (hrefWithoutFragment href) of Some idx \<Rightarrow> idx | None \<Rightarrow> spineIndex)
        else spineIndex)
       spineEndIndex
     # assignSpineIndices items spineMap"

text \<open>\<open>flattenTOCItems\<close>: every item of the tree, a parent before its children.\<close>

fun flattenTOCItems :: "TOCItem list \<Rightarrow> TOCItem list" where
  "flattenTOCItems [] = []"
| "flattenTOCItems (TOCItem title href children spineIndex spineEndIndex # items) =
     TOCItem title href children spineIndex spineEndIndex
     # flattenTOCItems children @ flattenTOCItems items"

text \<open>
  The three loops of \<open>computeSpineRanges\<close>: the distinct spine indices in the order
  of their first occurrence (\<open>seen\<close> is the \<open>map[int]bool\<close>), the map from a spine
  index to the next larger one, and the assignment of \<open>SpineEndIndex\<close> to every item
  (through the pointers of the flattened list, so to every item of the tree). A key
  that a Go map does not hold reads as 0.
\<close>

fun collectIndices :: "TOCItem list \<Rightarrow> (int \<Rightarrow> bool) \<Rightarrow> int list \<Rightarrow> int list" where
  "collectIndices [] seen indices = indices"
| "collectIndices (item # flat) seen indices =
     (if 0 \<le> SpineIndex item \<and> \<not> seen (SpineIndex item)
      then collectIndices flat (seen(SpineIndex item := True)) (indices @ [SpineIndex item])
      else collectIndices flat seen indices)"

fun buildEndMap :: "int list \<Rightarrow> int \<Rightarrow> (int \<rightharpoonup> int) \<Rightarrow> (int \<rightharpoonup> int)" where
  "buildEndMap [] spineLen endMap = endMap"
| "buildEndMap [idx] spineLen endMap = endMap(idx \<mapsto> spineLen)"
| "buildEndMap (idx # nxt # indices) spineLen endMap =
     buildEndMap (nxt # indices) spineLen (endMap(idx \<mapsto> nxt))"

fun applySpineEnd :: "(int \<rightharpoonup> int) \<Rightarrow> TOCItem list \<Rightarrow> TOCItem list" where
  "applySpineEnd endMap [] = []"
| "applySpineEnd endMap (TOCItem title href children spineIndex spineEndIndex # items) =
     TOCItem title href (applySpineEnd endMap children) spineIndex
       (if 0 \<le> spineIndex then (case endMap spineIndex of Some e \<Rightarrow> e | None \<Rightarrow> 0) else - 1)
     # applySpineEnd endMap items"

definition computeSpineRanges :: "TOCItem list \<Rightarrow> int \<Rightarrow> TOCItem list" where
  "computeSpineRanges items spineLen =
     (if length items = 0 then items
      else let flat = flattenTOCItems items;
               indices = collectIndices flat (\<lambda>i. False) []
           in if length indices = 0 then items
              else applySpineEnd (buildEndMap (sort indices) spineLen Map.empty) items)"

subsection \<open>The table of contents of a book\<close>

text \<open>The loop of \<open>parseTOC\<close> that builds \<open>spineMap\<close>; a later spine item overwrites.\<close>

fun buildSpineMap :: "Book \<Rightarrow> spineItem list \<Rightarrow> int \<Rightarrow> (string \<rightharpoonup> int) \<Rightarrow> (string \<rightharpoonup> int)" where
  "buildSpineMap b [] i spineMap = spineMap"
| "buildSpineMap b (si # rest) i spineMap =
     buildSpineMap b rest (i + 1) (spineMap(resolveOPFPath b (si_Href si) \<mapsto> i))"

text \<open>
  The warnings of a failed read or decoding; the text of the error that the source
  appends is left out.
\<close>

definition navReadWarning :: string where
  "navReadWarning = ''failed to read nav document''"

definition navParseWarning :: string where
  "navParseWarning = ''failed to parse nav document''"

definition ncxReadWarning :: string where
  "ncxReadWarning = ''failed to read NCX file''"

definition ncxParseWarning :: string where
  "ncxParseWarning = ''failed to parse NCX file''"

text \<open>
  The search of \<open>parseNavTOC\<close> for the navigation document: the first manifest item,
  in document order, with the property \<open>nav\<close> whose id the manifest map knows.
\<close>

fun findNavItem :: "Book \<Rightarrow> opfManifestItem list \<Rightarrow> manifestItem option" where
  "findNavItem b [] = None"
| "findNavItem b (raw # items) =
     (if list_ex (\<lambda>prop. prop = ''nav'') (Fields (item_Properties raw))
         \<and> bk_manifestByID b (item_ID raw) \<noteq> None
      then bk_manifestByID b (item_ID raw)
      else findNavItem b items)"

text \<open>
  \<open>parseNavTOC\<close> and \<open>parseNCXTOC\<close> return their result (\<open>None\<close> for \<open>ok = false\<close>)
  and the book with the warnings they appended.
\<close>

definition parseNavTOC ::
  "(string \<Rightarrow> html_node option) \<Rightarrow> Book \<Rightarrow> (string \<rightharpoonup> int)
     \<Rightarrow> (TOCItem list \<times> TOCItem list) option \<times> Book" where
  "parseNavTOC htmlParse b spineMap =
     (case findNavItem b (Items (pkg_Manifest (bk_opf b))) of
        None \<Rightarrow> (None, b)
      | Some navItem \<Rightarrow>
          (let navPath = resolveOPFPath b (mi_Href navItem)
           in case findFile b navPath of
                None \<Rightarrow> (None, b)
              | Some f \<Rightarrow>
                  (case readZipFile f of
                     Inl err \<Rightarrow> (None, b\<lparr>bk_warnings := bk_warnings b @ [navReadWarning]\<rparr>)
                   | Inr data \<Rightarrow>
                       (case parseNavDocument htmlParse data navPath of
                          None \<Rightarrow> (None, b\<lparr>bk_warnings := bk_warnings b @ [navParseWarning]\<rparr>)
                        | Some (tocItems, landmarkItems) \<Rightarrow>
                            (Some (assignSpineIndices tocItems spineMap,
                                   assignSpineIndices landmarkItems spineMap), b)))))"

definition parseNCXTOC ::
  "(string \<Rightarrow> ncxNavPoint list option) \<Rightarrow> Book \<Rightarrow> (string \<rightharpoonup> int)
     \<Rightarrow> TOCItem list option \<times> Book" where
  "parseNCXTOC unmarshal b spineMap =
     (let tocID = spine_Toc (pkg_Spine (bk_opf b))
      in if tocID = [] then (None, b)
         else case bk_manifestByID b tocID of
                None \<Rightarrow> (None, b)
              | Some ncxItem \<Rightarrow>
                  (let ncxPath = resolveOPFPath b (mi_Href ncxItem)
                   in case findFile b ncxPath of
                        None \<Rightarrow> (None, b)
                      | Some f \<Rightarrow>
                          (case readZipFile f of
                             Inl err \<Rightarrow> (None, b\<lparr>bk_warnings := bk_warnings b @ [ncxReadWarning]\<rparr>)
                           | Inr data \<Rightarrow>
                               (case parseNCX unmarshal data ncxPath of
                                  None \<Rightarrow>
                                    (None, b\<lparr>bk_warnings := bk_warnings b @ [ncxParseWarning]\<rparr>)
                                | Some tocItems \<Rightarrow>
                                    (Some (assignSpineIndices tocItems spineMap), b)))))"

text \<open>
  \<open>parseTOC\<close>. With a navigation document the book takes its \<open>toc\<close> and its
  \<open>landmarks\<close>, and \<open>computeSpineRanges\<close> runs on \<open>toc\<close>.
\<close>

definition parseTOC_ncx :: "(string \<Rightarrow> ncxNavPoint list option) \<Rightarrow> Book \<Rightarrow> (string \<rightharpoonup> int) \<Rightarrow> Book" where
  "parseTOC_ncx unmarshal b spineMap =
     (case parseNCXTOC unmarshal b spineMap of
        (Some tocItems, b1) \<Rightarrow>
          b1\<lparr>bk_toc := computeSpineRanges tocItems (int (length (bk_spine b)))\<rparr>
      | (None, b1) \<Rightarrow> b1\<lparr>bk_toc := [], bk_landmarks := []\<rparr>)"

definition parseTOC ::
  "(string \<Rightarrow> html_node option) \<Rightarrow> (string \<Rightarrow> ncxNavPoint list option) \<Rightarrow> Book \<Rightarrow> Book" where
  "parseTOC htmlParse unmarshal b =
     (let spineMap = buildSpineMap b (bk_spine b) 0 Map.empty;
          isEPub3 = HasPrefix (pkg_Version (bk_opf b)) ''3'';
          spineLen = int (length (bk_spine b))
      in if isEPub3 then
           (case parseNavTOC htmlParse b spineMap of
              (Some (tocItems, landmarkItems), b1) \<Rightarrow>
                b1\<lparr>bk_toc := computeSpineRanges tocItems spineLen, bk_landmarks := landmarkItems\<rparr>
            | (None, b1) \<Rightarrow> parseTOC_ncx unmarshal b1 spineMap)
         else parseTOC_ncx unmarshal b spineMap)"

subsection \<open>The spine range of an entry\<close>

text \<open>
  The property of a navigation entry that the specification states: no spine
  association (both indices are -1), or a non-empty range within the spine.
\<close>

definition spineRangeOK :: "int \<Rightarrow> TOCItem \<Rightarrow> bool" where
  "spineRangeOK spineLen item =
     ((SpineIndex item = - 1 \<and> SpineEndIndex item = - 1)
      \<or> (0 \<le> SpineIndex item \<and> SpineIndex item < SpineEndIndex item
          \<and> SpineEndIndex item \<le> spineLen))"

text \<open>
  The entries as the parsers build them (no index is set), and as
  \<open>assignSpineIndices\<close> leaves them (the spine index is -1 or an index of the spine,
  the end index is not set).
\<close>

definition unassigned :: "TOCItem list \<Rightarrow> bool" where
  "unassigned items =
     (\<forall>it \<in> set (flattenTOCItems items). SpineIndex it = - 1 \<and> SpineEndIndex it = - 1)"

definition assigned :: "int \<Rightarrow> TOCItem list \<Rightarrow> bool" where
  "assigned n items =
     (\<forall>it \<in> set (flattenTOCItems items).
        SpineEndIndex it = - 1 \<and> (SpineIndex it = - 1 \<or> (0 \<le> SpineIndex it \<and> SpineIndex it < n)))"

section \<open>Opening a book (epub.go)\<close>

text \<open>
  The part of \<open>initBook\<close> after the package descriptor is decoded: \<open>opfPath\<close> is
  the path that \<open>parseContainer\<close> found and \<open>pkg\<close> the package that \<open>parseOPF\<close>
  returned. The book gets its archive index, its manifest maps, its spine and its guide
  (\<open>initBook_fields\<close>), and then \<open>parseTOC\<close> gives it its table of contents. (The checks before it, of the mimetype entry and of DRM, only
  append warnings or end the opening.)
\<close>

definition initBook_fields :: "zipFile list \<Rightarrow> string \<Rightarrow> opfPackage \<Rightarrow> Book" where
  "initBook_fields zr opfPath pkg =
     (let (zipExact, zipLower) = buildZipIndex_loop zr (Map.empty, Map.empty);
          (byID, byHref) = buildManifestMaps (pkg_Manifest pkg)
      in \<lparr>bk_zip = zr, bk_zipExact = zipExact, bk_zipLower = zipLower,
          bk_opfPath = opfPath, bk_opfDir = Dir opfPath, bk_opf = pkg,
          bk_manifestByID = byID, bk_manifestByHref = byHref,
          bk_spine = buildSpine (pkg_Spine pkg) byID,
          bk_guide = buildGuide (pkg_Guide pkg),
          bk_toc = [], bk_landmarks = [], bk_chapters = None, bk_warnings = [],
          bk_licenseDetected = False\<rparr>)"

definition initBook_package ::
  "(string \<Rightarrow> html_node option) \<Rightarrow> (string \<Rightarrow> ncxNavPoint list option) \<Rightarrow> zipFile list \<Rightarrow> string
     \<Rightarrow> opfPackage \<Rightarrow> Book" where
  "initBook_package htmlParse unmarshal zr opfPath pkg =
     parseTOC htmlParse unmarshal (initBook_fields zr opfPath pkg)"

section \<open>Chapters and license detection (chapter.go, epub.go)\<close>





text \<open>
  \<open>buildTOCTitleMap\<close>: from the path of an entry (its href without the fragment) to
  the title of the first entry with that path.
\<close>

fun buildTOCTitleMap_loop :: "TOCItem list \<Rightarrow> (string \<rightharpoonup> string) \<Rightarrow> (string \<rightharpoonup> string)" where
  "buildTOCTitleMap_loop [] m = m"
| "buildTOCTitleMap_loop (item # flat) m =
     (if Href item = [] then buildTOCTitleMap_loop flat m
      else let filePath = hrefWithoutFragment (Href item)
           in if m filePath = None then buildTOCTitleMap_loop flat (m(filePath \<mapsto> Title item))
              else buildTOCTitleMap_loop flat m)"

definition buildTOCTitleMap :: "TOCItem list \<Rightarrow> (string \<rightharpoonup> string)" where
  "buildTOCTitleMap items = buildTOCTitleMap_loop (flattenTOCItems items) Map.empty"

text \<open>The chapter that the loop of \<open>Chapters\<close> builds for a spine item.\<close>

definition newChapter :: "Book \<Rightarrow> (string \<rightharpoonup> string) \<Rightarrow> spineItem \<Rightarrow> Chapter" where
  "newChapter b tocTitleMap si =
     (let href = resolveOPFPath b (si_Href si)
      in \<lparr>ch_Title = (case tocTitleMap href of Some t \<Rightarrow> t | None \<Rightarrow> []),
          ch_Href = href, ch_ID = si_ID si, ch_Linear = si_Linear si, ch_IsLicense = False\<rparr>)"

text \<open>
  \<open>Chapters\<close> returns a copy of the chapter list and leaves the list in the book:
  the model returns the list and the book.
\<close>

definition Chapters :: "Book \<Rightarrow> Chapter list \<times> Book" where
  "Chapters b =
     (case bk_chapters b of
        Some cached \<Rightarrow> (cached, b)
      | None \<Rightarrow>
          (let tocTitleMap = buildTOCTitleMap (bk_toc b);
               chapters = map (newChapter b tocTitleMap) (bk_spine b)
           in (chapters, b\<lparr>bk_chapters := Some chapters\<rparr>)))"




section \<open>Cover detection (cover.go)\<close>

definition isImageMediaType :: "string \<Rightarrow> bool" where
  "isImageMediaType mediaType = HasPrefix (ToLower (TrimSpace mediaType)) ''image/''"

definition containsFold :: "string \<Rightarrow> string \<Rightarrow> bool" where
  "containsFold s substr = Contains (ToLower s) (ToLower substr)"

text \<open>
  The attribute loops of \<open>findFirstImageInHTML\<close>: the value of the first attribute
  with an accepted key and a non-empty value.
\<close>

fun firstAttr :: "(string \<times> string) list \<Rightarrow> (string \<Rightarrow> bool) \<Rightarrow> string option" where
  "firstAttr [] accepted = None"
| "firstAttr ((k, v) # attrs) accepted =
     (if accepted k \<and> v \<noteq> [] then Some v else firstAttr attrs accepted)"

fun findFirstImage_loop :: "html_token list \<Rightarrow> string \<Rightarrow> string" where
  "findFirstImage_loop [] basePath = []"
| "findFirstImage_loop (t # ts) basePath =
     (if tok_Type t = StartTagToken \<or> tok_Type t = SelfClosingTagToken then
        (if tok_Name t = ''img'' \<and> tok_Attr t \<noteq> [] then
           (case firstAttr (tok_Attr t) (\<lambda>k. k = ''src'') of
              Some v \<Rightarrow> resolveRelativePath basePath v
            | None \<Rightarrow> findFirstImage_loop ts basePath)
         else if tok_Name t = ''image'' \<and> tok_Attr t \<noteq> [] then
           (case firstAttr (tok_Attr t) (\<lambda>k. k = ''href'' \<or> k = ''xlink:href'') of
              Some v \<Rightarrow> resolveRelativePath basePath v
            | None \<Rightarrow> findFirstImage_loop ts basePath)
         else findFirstImage_loop ts basePath)
      else findFirstImage_loop ts basePath)"

text \<open>
  \<open>findFirstImageInHTML\<close>; \<open>tokenize\<close> stands for the HTML tokenizer, which is not
  part of the package, and gives the tokens of the data.
\<close>

definition findFirstImageInHTML :: "(string \<Rightarrow> html_token list) \<Rightarrow> string \<Rightarrow> string \<Rightarrow> string" where
  "findFirstImageInHTML tokenize htmlData basePath = findFirstImage_loop (tokenize htmlData) basePath"

text \<open>
  \<open>resolveImageManifestItem\<close>: the two direct lookups (\<open>imageByHref\<close>), then the
  search without regard to case. That last loop ranges over the map \<open>manifestByHref\<close>,
  in an order that Go leaves open: \<open>mapRange\<close> is the list of the map's values in the
  order the loop takes.
\<close>

fun resolveImage_loop :: "Book \<Rightarrow> manifestItem list \<Rightarrow> string \<Rightarrow> string \<Rightarrow> manifestItem option" where
  "resolveImage_loop b [] absPath rel = None"
| "resolveImage_loop b (item # items) absPath rel =
     (if \<not> isImageMediaType (mi_MediaType item) then resolveImage_loop b items absPath rel
      else if ToLower (mi_Href item) = ToLower rel \<or> ToLower (mi_Href item) = ToLower absPath
      then Some item
      else if EqualFold (resolveOPFPath b (mi_Href item)) absPath then Some item
      else resolveImage_loop b items absPath rel)"

definition imageByHref :: "Book \<Rightarrow> string \<Rightarrow> manifestItem option" where
  "imageByHref b href =
     (case bk_manifestByHref b href of
        Some item \<Rightarrow> if isImageMediaType (mi_MediaType item) then Some item else None
      | None \<Rightarrow> None)"

definition resolveImageManifestItem :: "manifestItem list \<Rightarrow> Book \<Rightarrow> string \<Rightarrow> manifestItem option" where
  "resolveImageManifestItem mapRange b absPath =
     (let rel = (if bk_opfDir b \<noteq> ''.'' \<and> HasPrefix absPath (bk_opfDir b @ ''/'')
                 then drop (length (bk_opfDir b @ ''/'')) absPath else absPath)
      in case imageByHref b rel of
           Some item \<Rightarrow> Some item
         | None \<Rightarrow>
             (case imageByHref b absPath of
                Some item \<Rightarrow> Some item
              | None \<Rightarrow> resolveImage_loop b mapRange absPath rel))"

text \<open>
  The image that a cover page names: the page is read, its first image is resolved
  against the manifest. \<open>None\<close> when the page cannot be read, has no image, or the
  image is not in the manifest.
\<close>

definition imageOfPage ::
  "(string \<Rightarrow> html_token list) \<Rightarrow> manifestItem list \<Rightarrow> Book \<Rightarrow> string \<Rightarrow> manifestItem option" where
  "imageOfPage tokenize mapRange b xhtmlPath =
     (case ReadFile b xhtmlPath of
        Inl err \<Rightarrow> None
      | Inr data \<Rightarrow>
          (let imgPath = findFirstImageInHTML tokenize data xhtmlPath
           in if imgPath \<noteq> [] then resolveImageManifestItem mapRange b imgPath else None))"

subsection \<open>The five strategies\<close>

fun coverFromManifestProperties_loop :: "Book \<Rightarrow> opfManifestItem list \<Rightarrow> manifestItem option" where
  "coverFromManifestProperties_loop b [] = None"
| "coverFromManifestProperties_loop b (raw # items) =
     (case bk_manifestByID b (item_ID raw) of
        None \<Rightarrow> coverFromManifestProperties_loop b items
      | Some item \<Rightarrow>
          if list_ex (\<lambda>p. p = ''cover-image'') (Fields (mi_Properties item)) then Some item
          else coverFromManifestProperties_loop b items)"

definition coverFromManifestProperties :: "Book \<Rightarrow> manifestItem option" where
  "coverFromManifestProperties b =
     coverFromManifestProperties_loop b (Items (pkg_Manifest (bk_opf b)))"

fun coverFromMetaCover_loop ::
  "(string \<Rightarrow> html_token list) \<Rightarrow> manifestItem list \<Rightarrow> Book \<Rightarrow> opfMeta list
     \<Rightarrow> manifestItem option" where
  "coverFromMetaCover_loop tokenize mapRange b [] = None"
| "coverFromMetaCover_loop tokenize mapRange b (m # metas) =
     (if EqualFold (meta_Name m) ''cover'' \<and> meta_Content m \<noteq> [] then
        (case bk_manifestByID b (meta_Content m) of
           None \<Rightarrow> coverFromMetaCover_loop tokenize mapRange b metas
         | Some item \<Rightarrow>
             if isImageMediaType (mi_MediaType item) then Some item
             else (case imageOfPage tokenize mapRange b (resolveOPFPath b (mi_Href item)) of
                     Some imgItem \<Rightarrow> Some imgItem
                   | None \<Rightarrow> coverFromMetaCover_loop tokenize mapRange b metas))
      else coverFromMetaCover_loop tokenize mapRange b metas)"

definition coverFromMetaCover ::
  "(string \<Rightarrow> html_token list) \<Rightarrow> manifestItem list \<Rightarrow> Book \<Rightarrow> manifestItem option" where
  "coverFromMetaCover tokenize mapRange b =
     coverFromMetaCover_loop tokenize mapRange b (md_Metas (pkg_Metadata (bk_opf b)))"

fun coverFromGuide_loop ::
  "(string \<Rightarrow> html_token list) \<Rightarrow> manifestItem list \<Rightarrow> Book \<Rightarrow> guideReference list
     \<Rightarrow> manifestItem option" where
  "coverFromGuide_loop tokenize mapRange b [] = None"
| "coverFromGuide_loop tokenize mapRange b (ref # refs) =
     (if \<not> EqualFold (gr_Type ref) ''cover'' then coverFromGuide_loop tokenize mapRange b refs
      else (case imageOfPage tokenize mapRange b
                   (resolveOPFPath b (hrefWithoutFragment (gr_Href ref))) of
              Some item \<Rightarrow> Some item
            | None \<Rightarrow> coverFromGuide_loop tokenize mapRange b refs))"

definition coverFromGuide ::
  "(string \<Rightarrow> html_token list) \<Rightarrow> manifestItem list \<Rightarrow> Book \<Rightarrow> manifestItem option" where
  "coverFromGuide tokenize mapRange b = coverFromGuide_loop tokenize mapRange b (bk_guide b)"

fun coverFromManifestHeuristic_loop :: "Book \<Rightarrow> opfManifestItem list \<Rightarrow> manifestItem option" where
  "coverFromManifestHeuristic_loop b [] = None"
| "coverFromManifestHeuristic_loop b (raw # items) =
     (case bk_manifestByID b (item_ID raw) of
        None \<Rightarrow> coverFromManifestHeuristic_loop b items
      | Some item \<Rightarrow>
          if \<not> isImageMediaType (mi_MediaType item) then coverFromManifestHeuristic_loop b items
          else if containsFold (mi_ID item) ''cover'' \<or> containsFold (mi_Href item) ''cover''
          then Some item
          else coverFromManifestHeuristic_loop b items)"

definition coverFromManifestHeuristic :: "Book \<Rightarrow> manifestItem option" where
  "coverFromManifestHeuristic b =
     coverFromManifestHeuristic_loop b (Items (pkg_Manifest (bk_opf b)))"

definition coverFromFirstSpine ::
  "(string \<Rightarrow> html_token list) \<Rightarrow> manifestItem list \<Rightarrow> Book \<Rightarrow> manifestItem option" where
  "coverFromFirstSpine tokenize mapRange b =
     (case bk_spine b of
        [] \<Rightarrow> None
      | first # rest \<Rightarrow>
          if si_Href first = [] then None
          else imageOfPage tokenize mapRange b (resolveOPFPath b (si_Href first)))"

subsection \<open>The cascade\<close>

definition loadCoverImage :: "Book \<Rightarrow> manifestItem \<Rightarrow> epub_error + CoverImage" where
  "loadCoverImage b item =
     (let imgPath = resolveOPFPath b (mi_Href item)
      in case ReadFile b imgPath of
           Inl err \<Rightarrow> Inl err
         | Inr data \<Rightarrow>
             Inr \<lparr>ci_Path = imgPath, ci_MediaType = mi_MediaType item, ci_Data = data\<rparr>)"

definition Cover ::
  "(string \<Rightarrow> html_token list) \<Rightarrow> manifestItem list \<Rightarrow> Book \<Rightarrow> epub_error + CoverImage" where
  "Cover tokenize mapRange b =
     (case coverFromManifestProperties b of
        Some item \<Rightarrow> loadCoverImage b item
      | None \<Rightarrow>
     (case coverFromMetaCover tokenize mapRange b of
        Some item \<Rightarrow> loadCoverImage b item
      | None \<Rightarrow>
     (case coverFromGuide tokenize mapRange b of
        Some item \<Rightarrow> loadCoverImage b item
      | None \<Rightarrow>
     (case coverFromManifestHeuristic b of
        Some item \<Rightarrow> loadCoverImage b item
      | None \<Rightarrow>
     (case coverFromFirstSpine tokenize mapRange b of
        Some item \<Rightarrow> loadCoverImage b item
      | None \<Rightarrow> Inl ErrNoCover)))))"

section \<open>Example books\<close>

subsection \<open>A version 3 book with a landmarks list\<close>

text \<open>
  The navigation document of the book, and the tree that the HTML parser builds for
  it: a \<open>toc\<close> list with one entry for the first chapter and a \<open>landmarks\<close> list with
  one entry for the second chapter.
\<close>

definition landmarkNavData :: string where
  "landmarkNavData =
     ''<html><head></head><body><nav epub:type=toc><ol><li><a href=ch1.xhtml>One</a></li></ol></nav>''
     @ ''<nav epub:type=landmarks><ol><li><a href=ch2.xhtml>Start</a></li></ol></nav></body></html>''"

definition landmarkNavDocument :: html_node where
  "landmarkNavDocument =
     Node DocumentNode [] []
       [Node ElementNode ''html'' []
          [Node ElementNode ''head'' [] [],
           Node ElementNode ''body'' []
             [Node ElementNode ''nav'' [(''epub:type'', ''toc'')]
                [Node ElementNode ''ol'' []
                   [Node ElementNode ''li'' []
                      [Node ElementNode ''a'' [(''href'', ''ch1.xhtml'')]
                         [Node TextNode ''One'' [] []]]]],
              Node ElementNode ''nav'' [(''epub:type'', ''landmarks'')]
                [Node ElementNode ''ol'' []
                   [Node ElementNode ''li'' []
                      [Node ElementNode ''a'' [(''href'', ''ch2.xhtml'')]
                         [Node TextNode ''Start'' [] []]]]]]]]"

definition landmarkHtmlParse :: "string \<Rightarrow> html_node option" where
  "landmarkHtmlParse data = (if data = landmarkNavData then Some landmarkNavDocument else None)"

text \<open>The book has no NCX document, so the NCX decoder has nothing to decode.\<close>

definition noNCX :: "string \<Rightarrow> ncxNavPoint list option" where
  "noNCX data = None"

definition landmarkArchive :: "zipFile list" where
  "landmarkArchive =
     [\<lparr>Name = ''mimetype'', UncompressedSize64 = 20, openFails = False,
        content = ''application/epub+zip'', readFails = False\<rparr>,
      \<lparr>Name = ''OEBPS/nav.xhtml'', UncompressedSize64 = length landmarkNavData, openFails = False,
        content = landmarkNavData, readFails = False\<rparr>,
      \<lparr>Name = ''OEBPS/ch1.xhtml'', UncompressedSize64 = 36, openFails = False,
        content = ''<html><body><p>One</p></body></html>'', readFails = False\<rparr>,
      \<lparr>Name = ''OEBPS/ch2.xhtml'', UncompressedSize64 = 36, openFails = False,
        content = ''<html><body><p>Two</p></body></html>'', readFails = False\<rparr>]"

definition landmarkPackage :: opfPackage where
  "landmarkPackage =
     \<lparr>pkg_Version = ''3.0'', pkg_UniqueIdentifier = [],
      pkg_Metadata =
        \<lparr>md_Titles = [], md_Creators = [], md_Languages = [], md_Identifiers = [],
         md_Publishers = [], md_Dates = [], md_Descriptions = [], md_Subjects = [],
         md_Rights = [], md_Sources = [], md_Metas = []\<rparr>,
      pkg_Manifest = \<lparr>Items =
        [\<lparr>item_ID = ''nav'', item_Href = ''nav.xhtml'', item_MediaType = ''application/xhtml+xml'', item_Properties = ''nav''\<rparr>,
         \<lparr>item_ID = ''c1'', item_Href = ''ch1.xhtml'', item_MediaType = ''application/xhtml+xml'', item_Properties = []\<rparr>,
         \<lparr>item_ID = ''c2'', item_Href = ''ch2.xhtml'', item_MediaType = ''application/xhtml+xml'', item_Properties = []\<rparr>]\<rparr>,
      pkg_Spine = \<lparr>spine_Toc = [], spine_ItemRefs =
        [\<lparr>ref_IDRef = ''c1'', ref_Linear = []\<rparr>,
         \<lparr>ref_IDRef = ''c2'', ref_Linear = []\<rparr>]\<rparr>,
      pkg_Guide = \<lparr>guide_References = []\<rparr>\<rparr>"

definition landmarkBook :: Book where
  "landmarkBook =
     initBook_package landmarkHtmlParse noNCX landmarkArchive ''OEBPS/content.opf'' landmarkPackage"

subsection \<open>A book whose manifest has a percent-encoded href\<close>

text \<open>
  The archive holds the entry \<open>OEBPS/chapter 1.xhtml\<close>; the manifest names it, as a
  reference, by \<open>chapter%201.xhtml\<close>.
\<close>

definition encodedArchive :: "zipFile list" where
  "encodedArchive =
     [\<lparr>Name = ''mimetype'', UncompressedSize64 = 20, openFails = False,
        content = ''application/epub+zip'', readFails = False\<rparr>,
      \<lparr>Name = ''OEBPS/chapter 1.xhtml'', UncompressedSize64 = 36, openFails = False,
        content = ''<html><body><p>One</p></body></html>'', readFails = False\<rparr>,
      \<lparr>Name = ''OEBPS/ch2.xhtml'', UncompressedSize64 = 36, openFails = False,
        content = ''<html><body><p>Two</p></body></html>'', readFails = False\<rparr>]"

definition encodedPackage :: opfPackage where
  "encodedPackage =
     \<lparr>pkg_Version = ''2.0'', pkg_UniqueIdentifier = [],
      pkg_Metadata =
        \<lparr>md_Titles = [], md_Creators = [], md_Languages = [], md_Identifiers = [],
         md_Publishers = [], md_Dates = [], md_Descriptions = [], md_Subjects = [],
         md_Rights = [], md_Sources = [], md_Metas = []\<rparr>,
      pkg_Manifest = \<lparr>Items =
        [\<lparr>item_ID = ''c1'', item_Href = ''chapter%201.xhtml'', item_MediaType = ''application/xhtml+xml'', item_Properties = []\<rparr>,
         \<lparr>item_ID = ''c2'', item_Href = ''ch2.xhtml'', item_MediaType = ''application/xhtml+xml'', item_Properties = []\<rparr>]\<rparr>,
      pkg_Spine = \<lparr>spine_Toc = [], spine_ItemRefs =
        [\<lparr>ref_IDRef = ''c1'', ref_Linear = []\<rparr>,
         \<lparr>ref_IDRef = ''c2'', ref_Linear = []\<rparr>]\<rparr>,
      pkg_Guide = \<lparr>guide_References = []\<rparr>\<rparr>"

text \<open>For the books without a navigation document: no data is a navigation document.\<close>

definition noNav :: "string \<Rightarrow> html_node option" where
  "noNav data = None"

definition encodedBook :: Book where
  "encodedBook = initBook_package noNav noNCX encodedArchive ''OEBPS/content.opf'' encodedPackage"

subsection \<open>A book whose declared cover image is missing from the archive\<close>

text \<open>
  The manifest declares \<open>missing.png\<close> as the cover image (property \<open>cover-image\<close>),
  but the archive has no such entry; it does hold \<open>images/cover.jpg\<close>, which the
  manifest heuristic would select.
\<close>

definition coverArchive :: "zipFile list" where
  "coverArchive =
     [\<lparr>Name = ''mimetype'', UncompressedSize64 = 20, openFails = False,
        content = ''application/epub+zip'', readFails = False\<rparr>,
      \<lparr>Name = ''OEBPS/ch1.xhtml'', UncompressedSize64 = 36, openFails = False,
        content = ''<html><body><p>One</p></body></html>'', readFails = False\<rparr>,
      \<lparr>Name = ''OEBPS/images/cover.jpg'', UncompressedSize64 = 8, openFails = False,
        content = ''JPEGDATA'', readFails = False\<rparr>]"

definition coverPackage :: opfPackage where
  "coverPackage =
     \<lparr>pkg_Version = ''3.0'', pkg_UniqueIdentifier = [],
      pkg_Metadata =
        \<lparr>md_Titles = [], md_Creators = [], md_Languages = [], md_Identifiers = [],
         md_Publishers = [], md_Dates = [], md_Descriptions = [], md_Subjects = [],
         md_Rights = [], md_Sources = [], md_Metas = []\<rparr>,
      pkg_Manifest = \<lparr>Items =
        [\<lparr>item_ID = ''declared'', item_Href = ''missing.png'', item_MediaType = ''image/png'', item_Properties = ''cover-image''\<rparr>,
         \<lparr>item_ID = ''cover-jpg'', item_Href = ''images/cover.jpg'', item_MediaType = ''image/jpeg'', item_Properties = []\<rparr>,
         \<lparr>item_ID = ''c1'', item_Href = ''ch1.xhtml'', item_MediaType = ''application/xhtml+xml'', item_Properties = []\<rparr>]\<rparr>,
      pkg_Spine = \<lparr>spine_Toc = [], spine_ItemRefs =
        [\<lparr>ref_IDRef = ''c1'', ref_Linear = []\<rparr>]\<rparr>,
      pkg_Guide = \<lparr>guide_References = []\<rparr>\<rparr>"

definition coverBook :: Book where
  "coverBook = initBook_package noNav noNCX coverArchive ''OEBPS/content.opf'' coverPackage"

text \<open>The tokens of the only page of the archive, which holds no image.\<close>

definition coverTokenize :: "string \<Rightarrow> html_token list" where
  "coverTokenize data =
     (if data = ''<html><body><p>One</p></body></html>'' then
        [\<lparr>tok_Type = StartTagToken, tok_Name = ''html'', tok_Attr = [], tok_Data = []\<rparr>,
         \<lparr>tok_Type = StartTagToken, tok_Name = ''body'', tok_Attr = [], tok_Data = []\<rparr>,
         \<lparr>tok_Type = StartTagToken, tok_Name = ''p'', tok_Attr = [], tok_Data = []\<rparr>,
         \<lparr>tok_Type = TextToken, tok_Name = [], tok_Attr = [], tok_Data = ''One''\<rparr>,
         \<lparr>tok_Type = EndTagToken, tok_Name = ''p'', tok_Attr = [], tok_Data = []\<rparr>,
         \<lparr>tok_Type = EndTagToken, tok_Name = ''body'', tok_Attr = [], tok_Data = []\<rparr>,
         \<lparr>tok_Type = EndTagToken, tok_Name = ''html'', tok_Attr = [], tok_Data = []\<rparr>]
      else [])"

definition coverMapRange :: "manifestItem list" where
  "coverMapRange =
     [\<lparr>mi_ID = ''declared'', mi_Href = ''missing.png'', mi_MediaType = ''image/png'', mi_Properties = ''cover-image''\<rparr>,
      \<lparr>mi_ID = ''cover-jpg'', mi_Href = ''images/cover.jpg'', mi_MediaType = ''image/jpeg'', mi_Properties = []\<rparr>,
      \<lparr>mi_ID = ''c1'', mi_Href = ''ch1.xhtml'', mi_MediaType = ''application/xhtml+xml'', mi_Properties = []\<rparr>]"

text \<open>A book with the same archive whose manifest declares no cover image.\<close>

definition heuristicPackage :: opfPackage where
  "heuristicPackage =
     \<lparr>pkg_Version = ''3.0'', pkg_UniqueIdentifier = [],
      pkg_Metadata =
        \<lparr>md_Titles = [], md_Creators = [], md_Languages = [], md_Identifiers = [],
         md_Publishers = [], md_Dates = [], md_Descriptions = [], md_Subjects = [],
         md_Rights = [], md_Sources = [], md_Metas = []\<rparr>,
      pkg_Manifest = \<lparr>Items =
        [\<lparr>item_ID = ''cover-jpg'', item_Href = ''images/cover.jpg'', item_MediaType = ''image/jpeg'', item_Properties = []\<rparr>,
         \<lparr>item_ID = ''c1'', item_Href = ''ch1.xhtml'', item_MediaType = ''application/xhtml+xml'', item_Properties = []\<rparr>]\<rparr>,
      pkg_Spine = \<lparr>spine_Toc = [], spine_ItemRefs =
        [\<lparr>ref_IDRef = ''c1'', ref_Linear = []\<rparr>]\<rparr>,
      pkg_Guide = \<lparr>guide_References = []\<rparr>\<rparr>"

definition heuristicBook :: Book where
  "heuristicBook = initBook_package noNav noNCX coverArchive ''OEBPS/content.opf'' heuristicPackage"

subsection \<open>A book with license pages\<close>








section \<open>Properties of the entity preprocessing\<close>

lemma toLowerByte_marks:
  "toLowerByte CHR ''&'' = CHR ''&''" "toLowerByte CHR '';'' = CHR '';''"
  "toLowerByte CHR ''#'' = CHR ''#''"
  by code_simp+

text \<open>
  A match is local: it consumes a prefix of the input, whatever follows that prefix,
  and every consumed byte is a letter of the name (in either case) or a byte of the
  long s.
\<close>

lemma matchFold_local:
  assumes "matchFold c s = Some r"
  shows "\<exists>m. s = m @ r \<and> m \<noteq> [] \<and> (\<forall>q. matchFold c (m @ q) = Some q)
           \<and> (\<forall>b \<in> set m. toLowerByte b = c \<or> b = CHR 0xC5 \<or> b = CHR 0xBF)"
proof (cases s)
  case Nil
  then show ?thesis using assms by (simp add: matchFold_def)
next
  case (Cons b rest)
  show ?thesis
  proof (cases "toLowerByte b = c")
    case True
    then have "r = rest" using assms Cons by (simp add: matchFold_def)
    then have "s = [b] @ r \<and> [b] \<noteq> [] \<and> (\<forall>q. matchFold c ([b] @ q) = Some q)
           \<and> (\<forall>x \<in> set [b]. toLowerByte x = c \<or> x = CHR 0xC5 \<or> x = CHR 0xBF)"
      using True Cons by (simp add: matchFold_def)
    then show ?thesis by blast
  next
    case False
    then have p: "c = CHR ''s''" "prefix [CHR 0xC5, CHR 0xBF] s" and r: "r = drop 2 s"
      using assms Cons by (auto simp: matchFold_def split: if_splits)
    from p(2) have s: "s = [CHR 0xC5, CHR 0xBF] @ r" using r by (auto simp: prefix_def)
    then have b: "b = CHR 0xC5" using Cons by simp
    have "\<forall>q. matchFold c ([CHR 0xC5, CHR 0xBF] @ q) = Some q"
      using False b p(1) by (simp add: matchFold_def)
    then have "s = [CHR 0xC5, CHR 0xBF] @ r \<and> [CHR 0xC5, CHR 0xBF] \<noteq> ([]::string)
           \<and> (\<forall>q. matchFold c ([CHR 0xC5, CHR 0xBF] @ q) = Some q)
           \<and> (\<forall>x \<in> set [CHR 0xC5, CHR 0xBF]. toLowerByte x = c \<or> x = CHR 0xC5 \<or> x = CHR 0xBF)"
      using s by simp
    then show ?thesis by blast
  qed
qed

lemma matchLiteralFold_local:
  "matchLiteralFold n s = Some r \<Longrightarrow>
   \<exists>m. s = m @ r \<and> (n \<noteq> [] \<longrightarrow> m \<noteq> []) \<and> (\<forall>q. matchLiteralFold n (m @ q) = Some q)
       \<and> (\<forall>b \<in> set m. toLowerByte b \<in> set n \<or> b = CHR 0xC5 \<or> b = CHR 0xBF)"
proof (induction n arbitrary: s)
  case Nil
  then show ?case by simp
next
  case (Cons c cs)
  from Cons.prems obtain s1 where s1: "matchFold c s = Some s1"
      and rest: "matchLiteralFold cs s1 = Some r"
    by (auto split: option.splits)
  from matchFold_local [OF s1] obtain m1 where m1: "s = m1 @ s1" "m1 \<noteq> []"
      "\<forall>q. matchFold c (m1 @ q) = Some q"
      "\<forall>b \<in> set m1. toLowerByte b = c \<or> b = CHR 0xC5 \<or> b = CHR 0xBF"
    by blast
  from Cons.IH [OF rest] obtain m2 where m2: "s1 = m2 @ r"
      "\<forall>q. matchLiteralFold cs (m2 @ q) = Some q"
      "\<forall>b \<in> set m2. toLowerByte b \<in> set cs \<or> b = CHR 0xC5 \<or> b = CHR 0xBF"
    by blast
  have "s = (m1 @ m2) @ r" using m1(1) m2(1) by simp
  moreover have "m1 @ m2 \<noteq> []" using m1(2) by simp
  moreover have "\<forall>q. matchLiteralFold (c # cs) ((m1 @ m2) @ q) = Some q"
    using m1(3) m2(2) by simp
  moreover have "\<forall>b \<in> set (m1 @ m2). toLowerByte b \<in> set (c # cs) \<or> b = CHR 0xC5 \<or> b = CHR 0xBF"
    using m1(4) m2(3) by auto
  ultimately show ?case by blast
qed

lemma matchAlternatives_Some:
  "matchAlternatives ns s = Some r \<Longrightarrow> \<exists>n \<in> set ns. matchLiteralFold n s = Some (CHR '';'' # r)"
proof (induction ns)
  case Nil
  then show ?case by simp
next
  case (Cons n ns)
  show ?case
  proof (cases "matchLiteralFold n s")
    case None
    then show ?thesis using Cons by simp
  next
    case (Some r')
    show ?thesis
    proof (cases "r' \<noteq> [] \<and> hd r' = CHR '';''")
      case True
      then have "r' = CHR '';'' # r" using Cons.prems Some by (cases r') auto
      then show ?thesis using Some by simp
    next
      case False
      then show ?thesis using Cons Some by auto
    qed
  qed
qed

lemma matchAlternatives_complete:
  "n \<in> set ns \<Longrightarrow> matchLiteralFold n s = Some (CHR '';'' # r) \<Longrightarrow> matchAlternatives ns s \<noteq> None"
  by (induction ns) (auto split: option.splits)

lemma htmlEntityNames_letters:
  "list_all (\<lambda>n. n \<noteq> [] \<and> CHR ''&'' \<notin> set n \<and> CHR '';'' \<notin> set n \<and> CHR ''#'' \<notin> set n) htmlEntityNames"
  by code_simp

lemma entityName_bytes:
  assumes "entityName p"
  shows "p \<noteq> [] \<and> CHR ''&'' \<notin> set p \<and> CHR '';'' \<notin> set p \<and> CHR ''#'' \<notin> set p"
proof -
  from assms obtain n where n: "n \<in> set htmlEntityNames" "matchLiteralFold n p = Some []"
    by (auto simp: entityName_def list_ex_iff)
  from n(1) htmlEntityNames_letters
  have l: "n \<noteq> []" "CHR ''&'' \<notin> set n" "CHR '';'' \<notin> set n" "CHR ''#'' \<notin> set n"
    by (auto simp: list_all_iff)
  from matchLiteralFold_local [OF n(2)] l(1)
  have "p \<noteq> []" and b: "\<forall>b \<in> set p. toLowerByte b \<in> set n \<or> b = CHR 0xC5 \<or> b = CHR 0xBF"
    by auto
  moreover have "CHR ''&'' \<notin> set p" using b l(2) toLowerByte_marks(1) by fastforce
  moreover have "CHR '';'' \<notin> set p" using b l(3) toLowerByte_marks(2) by fastforce
  moreover have "CHR ''#'' \<notin> set p" using b l(4) toLowerByte_marks(3) by fastforce
  ultimately show ?thesis by simp
qed

lemma first_mark_unique:
  "p @ c # r = p' @ c # r' \<Longrightarrow> c \<notin> set p \<Longrightarrow> c \<notin> set p' \<Longrightarrow> p = p' \<and> r = r'"
proof (induction p arbitrary: p')
  case Nil
  then show ?case by (cases p') auto
next
  case (Cons a p)
  then show ?case by (cases p') auto
qed

text \<open>
  The pattern matches at the start of the input exactly when the input is \<open>&\<close>, an
  accepted name and \<open>;\<close>; the match is then these bytes.
\<close>

lemma htmlEntityPattern_Some:
  assumes "htmlEntityPattern s = Some (m, rest)"
  shows "\<exists>p. entityName p \<and> s = CHR ''&'' # p @ CHR '';'' # rest \<and> m = CHR ''&'' # p @ '';''"
proof -
  from assms obtain t where s: "s = CHR ''&'' # t"
      and a: "matchAlternatives htmlEntityNames t = Some rest"
      and m: "m = take (length s - length rest) s"
    by (cases s) (auto simp: htmlEntityPattern_def split: if_splits option.splits)
  from matchAlternatives_Some [OF a] obtain n where n: "n \<in> set htmlEntityNames"
      "matchLiteralFold n t = Some (CHR '';'' # rest)"
    by blast
  from matchLiteralFold_local [OF n(2)] obtain p where p: "t = p @ CHR '';'' # rest"
      "\<forall>q. matchLiteralFold n (p @ q) = Some q"
    by blast
  from p(2) have "matchLiteralFold n (p @ []) = Some []" by blast
  then have "matchLiteralFold n p = Some []" by simp
  then have "entityName p" using n(1) by (auto simp: entityName_def list_ex_iff)
  moreover have "s = CHR ''&'' # p @ CHR '';'' # rest" using s p(1) by simp
  moreover from this have "m = CHR ''&'' # p @ '';''" using m by simp
  ultimately show ?thesis by blast
qed

lemma htmlEntityPattern_entityName:
  assumes "entityName p"
  shows "htmlEntityPattern (CHR ''&'' # p @ CHR '';'' # rest) = Some (CHR ''&'' # p @ '';'', rest)"
proof -
  from assms obtain n where n: "n \<in> set htmlEntityNames" "matchLiteralFold n p = Some []"
    by (auto simp: entityName_def list_ex_iff)
  from matchLiteralFold_local [OF n(2)]
  have "matchLiteralFold n (p @ CHR '';'' # rest) = Some (CHR '';'' # rest)" by simp
  from matchAlternatives_complete [OF n(1) this]
  obtain r' where r': "matchAlternatives htmlEntityNames (p @ CHR '';'' # rest) = Some r'"
    by auto
  then have "htmlEntityPattern (CHR ''&'' # p @ CHR '';'' # rest)
      = Some (take (length (CHR ''&'' # p @ CHR '';'' # rest) - length r') (CHR ''&'' # p @ CHR '';'' # rest), r')"
    by (simp add: htmlEntityPattern_def)
  then obtain m' where h: "htmlEntityPattern (CHR ''&'' # p @ CHR '';'' # rest) = Some (m', r')"
    by blast
  from htmlEntityPattern_Some [OF h] obtain p' where p': "entityName p'"
      "CHR ''&'' # p @ CHR '';'' # rest = CHR ''&'' # p' @ CHR '';'' # r'" "m' = CHR ''&'' # p' @ '';''"
    by blast
  have "p = p' \<and> rest = r'"
    using first_mark_unique [of p "CHR '';''" rest p' r'] p'(2) entityName_bytes [OF assms]
      entityName_bytes [OF p'(1)]
    by simp
  then show ?thesis using h p'(3) by simp
qed

text \<open>How the scan proceeds over plain bytes, over a match and over a replacement.\<close>

lemma htmlEntityPattern_other: "c \<noteq> CHR ''&'' \<Longrightarrow> htmlEntityPattern (c # cs) = None"
  by (simp add: htmlEntityPattern_def)

lemma htmlEntityPattern_other_sym: "CHR ''&'' \<noteq> c \<Longrightarrow> htmlEntityPattern (c # cs) = None"
  by (auto simp: htmlEntityPattern_def)

lemma preprocess_plain:
  "CHR ''&'' \<notin> set xs \<Longrightarrow> preprocessHTMLEntities (xs @ ys) = xs @ preprocessHTMLEntities ys"
  by (induction xs) (simp_all add: htmlEntityPattern_other_sym)

lemma preprocess_entity:
  "entityName p \<Longrightarrow>
   preprocessHTMLEntities (CHR ''&'' # p @ CHR '';'' # ys)
     = replaceEntity (CHR ''&'' # p @ '';'') @ preprocessHTMLEntities ys"
  by (simp add: htmlEntityPattern_entityName)

lemma entityNameToNumeric_values:
  "list_all (\<lambda>(k, v). take 2 v = ''&#'' \<and> CHR ''&'' \<notin> set (drop 2 v)) entityNameToNumeric"
  by code_simp

lemma replaceEntity_cases:
  "replaceEntity m = m \<or> (\<exists>w. replaceEntity m = CHR ''&'' # CHR ''#'' # w \<and> CHR ''&'' \<notin> set w)"
proof (cases "map_of entityNameToNumeric (ToLower (take (length m - 2) (drop 1 m)))")
  case None
  then show ?thesis by (simp add: replaceEntity_def)
next
  case (Some v)
  then have "(ToLower (take (length m - 2) (drop 1 m)), v) \<in> set entityNameToNumeric"
    by (rule map_of_SomeD)
  with entityNameToNumeric_values have v: "take 2 v = ''&#''" "CHR ''&'' \<notin> set (drop 2 v)"
    by (auto simp: list_all_iff)
  then have "v = CHR ''&'' # CHR ''#'' # drop 2 v"
    by (metis append_take_drop_id append_Cons append_Nil)
  then show ?thesis using Some v(2) by (auto simp: replaceEntity_def)
qed

lemma preprocess_reference:
  assumes "CHR ''&'' \<notin> set w"
  shows "preprocessHTMLEntities (CHR ''&'' # CHR ''#'' # w @ zs)
     = CHR ''&'' # CHR ''#'' # w @ preprocessHTMLEntities zs"
proof -
  have "htmlEntityPattern (CHR ''&'' # CHR ''#'' # w @ zs) = None"
  proof (rule ccontr)
    assume "htmlEntityPattern (CHR ''&'' # CHR ''#'' # w @ zs) \<noteq> None"
    then obtain m r where "htmlEntityPattern (CHR ''&'' # CHR ''#'' # w @ zs) = Some (m, r)"
      by auto
    from htmlEntityPattern_Some [OF this] obtain p where p: "entityName p"
        "CHR ''#'' # w @ zs = p @ CHR '';'' # r"
      by auto
    from entityName_bytes [OF p(1)] have "p \<noteq> []" "CHR ''#'' \<notin> set p" by simp_all
    with p(2) show False by (cases p) auto
  qed
  then have "preprocessHTMLEntities (CHR ''&'' # CHR ''#'' # w @ zs)
      = CHR ''&'' # preprocessHTMLEntities ((CHR ''#'' # w) @ zs)"
    by simp
  also have "\<dots> = CHR ''&'' # (CHR ''#'' # w) @ preprocessHTMLEntities zs"
    using assms by (subst preprocess_plain) simp_all
  finally show ?thesis by simp
qed

lemma preprocess_replaced:
  assumes "entityName p"
  shows "preprocessHTMLEntities (replaceEntity (CHR ''&'' # p @ '';'') @ zs)
     = replaceEntity (CHR ''&'' # p @ '';'') @ preprocessHTMLEntities zs"
proof -
  consider (same) "replaceEntity (CHR ''&'' # p @ '';'') = CHR ''&'' # p @ '';''"
    | (ref) w where "replaceEntity (CHR ''&'' # p @ '';'') = CHR ''&'' # CHR ''#'' # w"
        "CHR ''&'' \<notin> set w"
    using replaceEntity_cases by blast
  then show ?thesis
  proof cases
    case same
    then show ?thesis using preprocess_entity [OF assms, of zs] by simp
  next
    case ref
    then show ?thesis using preprocess_reference [of w zs] by simp
  qed
qed

lemma replaceEntity_head:
  "entityName p \<Longrightarrow> \<exists>w. replaceEntity (CHR ''&'' # p @ '';'') = CHR ''&'' # w"
  using replaceEntity_cases [of "CHR ''&'' # p @ '';''"] by auto

text \<open>
  A stretch without \<open>&\<close> at the start of the output is a stretch at the start of the
  input, so the scan of the output finds no match where the scan of the input found
  none.
\<close>

lemma preprocess_prefix:
  "CHR ''&'' \<notin> set w \<Longrightarrow> prefix w (preprocessHTMLEntities cs) \<Longrightarrow> prefix w cs"
proof (induction cs arbitrary: w rule: preprocessHTMLEntities.induct)
  case 1
  then show ?case by simp
next
  case (2 c cs)
  show ?case
  proof (cases "htmlEntityPattern (c # cs)")
    case None
    then have "prefix w (c # preprocessHTMLEntities cs)" using "2.prems"(2) by simp
    then show ?thesis
    proof (cases w)
      case Nil
      then show ?thesis by simp
    next
      case (Cons a w')
      then have "a = c" "prefix w' (preprocessHTMLEntities cs)"
        using \<open>prefix w (c # preprocessHTMLEntities cs)\<close> by simp_all
      moreover have "CHR ''&'' \<notin> set w'" using "2.prems"(1) Cons by simp
      ultimately show ?thesis using "2.IH"(1) [OF None] Cons by simp
    qed
  next
    case (Some mr)
    obtain m rest where mr: "mr = (m, rest)" by (cases mr)
    from htmlEntityPattern_Some [of "c # cs" m rest] Some mr obtain p where p: "entityName p"
        "m = CHR ''&'' # p @ '';''"
      by auto
    from replaceEntity_head [OF p(1)] obtain v where "replaceEntity m = CHR ''&'' # v"
      using p(2) by auto
    then have "prefix w (CHR ''&'' # v @ preprocessHTMLEntities rest)"
      using "2.prems"(2) Some mr by simp
    then have "w = []" using "2.prems"(1) by (cases w) auto
    then show ?thesis by simp
  qed
qed

lemma prefix_before_mark:
  "prefix w (cs @ c # zs) \<Longrightarrow> c \<notin> set w \<Longrightarrow> prefix w cs"
proof (induction cs arbitrary: w)
  case Nil
  then show ?case by (cases w) auto
next
  case (Cons a cs)
  then show ?case by (cases w) auto
qed

lemma no_match_from_prefix:
  assumes "htmlEntityPattern (CHR ''&'' # cs) = None"
    and "\<And>w. CHR ''&'' \<notin> set w \<Longrightarrow> prefix w ds \<Longrightarrow> prefix w cs"
  shows "htmlEntityPattern (CHR ''&'' # ds) = None"
proof (rule ccontr)
  assume "htmlEntityPattern (CHR ''&'' # ds) \<noteq> None"
  then obtain m r where "htmlEntityPattern (CHR ''&'' # ds) = Some (m, r)" by auto
  from htmlEntityPattern_Some [OF this] obtain p where p: "entityName p"
      "ds = p @ CHR '';'' # r"
    by auto
  have "CHR ''&'' \<notin> set (p @ '';'')" using entityName_bytes [OF p(1)] by simp
  moreover have "prefix (p @ '';'') ds" using p(2) by (simp add: prefix_def)
  ultimately have "prefix (p @ '';'') cs" by (rule assms(2))
  then obtain r' where "cs = p @ CHR '';'' # r'" by (auto simp: prefix_def)
  then show False using htmlEntityPattern_entityName [OF p(1), of r'] assms(1) by simp
qed

lemma preprocess_idempotent:
  "preprocessHTMLEntities (preprocessHTMLEntities s) = preprocessHTMLEntities s"
proof (induction s rule: preprocessHTMLEntities.induct)
  case 1
  then show ?case by simp
next
  case (2 c cs)
  show ?case
  proof (cases "htmlEntityPattern (c # cs)")
    case None
    have "htmlEntityPattern (c # preprocessHTMLEntities cs) = None"
    proof (cases "c = CHR ''&''")
      case True
      have "htmlEntityPattern (CHR ''&'' # preprocessHTMLEntities cs) = None"
      proof (rule no_match_from_prefix)
        show "htmlEntityPattern (CHR ''&'' # cs) = None" using None True by simp
      next
        fix w
        assume "CHR ''&'' \<notin> set w" and "prefix w (preprocessHTMLEntities cs)"
        then show "prefix w cs" by (rule preprocess_prefix)
      qed
      then show ?thesis using True by simp
    next
      case False
      then show ?thesis by (rule htmlEntityPattern_other)
    qed
    then show ?thesis using None "2.IH"(1) by simp
  next
    case (Some mr)
    obtain m rest where mr: "mr = (m, rest)" by (cases mr)
    from htmlEntityPattern_Some [of "c # cs" m rest] Some mr obtain p where p: "entityName p"
        "m = CHR ''&'' # p @ '';''"
      by auto
    have "preprocessHTMLEntities (c # cs) = replaceEntity m @ preprocessHTMLEntities rest"
      using Some mr by simp
    moreover have "preprocessHTMLEntities (replaceEntity m @ preprocessHTMLEntities rest)
        = replaceEntity m @ preprocessHTMLEntities (preprocessHTMLEntities rest)"
      unfolding p(2) by (rule preprocess_replaced [OF p(1)])
    ultimately show ?thesis using "2.IH"(2) [OF Some mr [symmetric]] by simp
  qed
qed

text \<open>No match extends over a later \<open>&\<close>: the scan can be split there.\<close>

lemma preprocess_split:
  "preprocessHTMLEntities (xs @ CHR ''&'' # zs)
     = preprocessHTMLEntities xs @ preprocessHTMLEntities (CHR ''&'' # zs)"
proof (induction xs rule: preprocessHTMLEntities.induct)
  case 1
  then show ?case by simp
next
  case (2 c cs)
  show ?case
  proof (cases "htmlEntityPattern (c # cs)")
    case None
    have "htmlEntityPattern (c # cs @ CHR ''&'' # zs) = None"
    proof (cases "c = CHR ''&''")
      case True
      have "htmlEntityPattern (CHR ''&'' # cs @ CHR ''&'' # zs) = None"
      proof (rule no_match_from_prefix)
        show "htmlEntityPattern (CHR ''&'' # cs) = None" using None True by simp
      next
        fix w
        assume w: "CHR ''&'' \<notin> set w" "prefix w (cs @ CHR ''&'' # zs)"
        show "prefix w cs" by (rule prefix_before_mark [OF w(2) w(1)])
      qed
      then show ?thesis using True by simp
    next
      case False
      then show ?thesis by (rule htmlEntityPattern_other)
    qed
    then show ?thesis using None "2.IH"(1) by simp
  next
    case (Some mr)
    obtain m rest where mr: "mr = (m, rest)" by (cases mr)
    from htmlEntityPattern_Some [of "c # cs" m rest] Some mr obtain p where p: "entityName p"
        "c # cs = CHR ''&'' # p @ CHR '';'' # rest" "m = CHR ''&'' # p @ '';''"
      by auto
    have "(c # cs) @ CHR ''&'' # zs = CHR ''&'' # p @ CHR '';'' # (rest @ CHR ''&'' # zs)"
      using p(2) by simp
    then have "preprocessHTMLEntities ((c # cs) @ CHR ''&'' # zs)
        = replaceEntity m @ preprocessHTMLEntities (rest @ CHR ''&'' # zs)"
      using preprocess_entity [OF p(1)] p(3) by simp
    moreover have "preprocessHTMLEntities (c # cs) = replaceEntity m @ preprocessHTMLEntities rest"
      using Some mr by simp
    ultimately show ?thesis using "2.IH"(2) [OF Some mr [symmetric]] by simp
  qed
qed

lemma preprocess_keeps:
  assumes "\<not> entityName p" and "CHR ''&'' \<notin> set p" and "CHR '';'' \<notin> set p"
  shows "preprocessHTMLEntities (xs @ CHR ''&'' # p @ CHR '';'' # ys)
     = preprocessHTMLEntities xs @ CHR ''&'' # p @ CHR '';'' # preprocessHTMLEntities ys"
proof -
  have "htmlEntityPattern (CHR ''&'' # p @ CHR '';'' # ys) = None"
  proof (rule ccontr)
    assume "htmlEntityPattern (CHR ''&'' # p @ CHR '';'' # ys) \<noteq> None"
    then obtain m r where "htmlEntityPattern (CHR ''&'' # p @ CHR '';'' # ys) = Some (m, r)"
      by auto
    from htmlEntityPattern_Some [OF this] obtain p' where p': "entityName p'"
        "p @ CHR '';'' # ys = p' @ CHR '';'' # r"
      by auto
    from first_mark_unique [OF p'(2) assms(3)] entityName_bytes [OF p'(1)] have "p = p'" by simp
    then show False using assms(1) p'(1) by simp
  qed
  then have "preprocessHTMLEntities (CHR ''&'' # p @ CHR '';'' # ys)
      = CHR ''&'' # preprocessHTMLEntities ((p @ '';'') @ ys)"
    by simp
  also have "\<dots> = CHR ''&'' # (p @ '';'') @ preprocessHTMLEntities ys"
    using assms(2) by (subst preprocess_plain) simp_all
  finally show ?thesis by (simp add: preprocess_split)
qed

lemma preserved_names:
  "\<not> entityName ''amp''" "\<not> entityName ''lt''" "\<not> entityName ''gt''"
  "\<not> entityName ''quot''" "\<not> entityName ''apos''"
  by code_simp+

text \<open>
  Claim C9. \<open>preprocessHTMLEntities\<close> never replaces the entities \<open>amp\<close>, \<open>lt\<close>, \<open>gt\<close>,
  \<open>quot\<close> and \<open>apos\<close>: wherever one of them stands in the input, the output is the
  output for the bytes before it, the entity unchanged, and the output for the bytes
  after it. And \<open>preprocessHTMLEntities\<close> is idempotent: applying it twice gives the
  bytes that applying it once gives. This holds on every input, so in particular on the
  inputs whose named entities are mapped or preserved ones.
\<close>

theorem preprocessHTMLEntities_preserves_idempotent:
  "preprocessHTMLEntities (xs @ ''&amp;'' @ ys)
     = preprocessHTMLEntities xs @ ''&amp;'' @ preprocessHTMLEntities ys
   \<and> preprocessHTMLEntities (xs @ ''&lt;'' @ ys)
     = preprocessHTMLEntities xs @ ''&lt;'' @ preprocessHTMLEntities ys
   \<and> preprocessHTMLEntities (xs @ ''&gt;'' @ ys)
     = preprocessHTMLEntities xs @ ''&gt;'' @ preprocessHTMLEntities ys
   \<and> preprocessHTMLEntities (xs @ ''&quot;'' @ ys)
     = preprocessHTMLEntities xs @ ''&quot;'' @ preprocessHTMLEntities ys
   \<and> preprocessHTMLEntities (xs @ ''&apos;'' @ ys)
     = preprocessHTMLEntities xs @ ''&apos;'' @ preprocessHTMLEntities ys
   \<and> preprocessHTMLEntities (preprocessHTMLEntities s) = preprocessHTMLEntities s"
  using preprocess_keeps [of "''amp''" xs ys] preprocess_keeps [of "''lt''" xs ys]
    preprocess_keeps [of "''gt''" xs ys] preprocess_keeps [of "''quot''" xs ys]
    preprocess_keeps [of "''apos''" xs ys] preserved_names preprocess_idempotent [of s]
  by simp

text \<open>
  On an input with mapped entities (in lower and in upper case), a preserved entity,
  an unknown entity and a numeric reference.
\<close>

lemma preprocess_example:
  "preprocessHTMLEntities ''a&nbsp;b &amp; c&MDASH;d &bogus; &#160;'' = ''a&#160;b &amp; c&#8212;d &bogus; &#160;''"
  by code_simp

section \<open>Properties of the path resolver\<close>

lemma backtrack_bounds:
  "dotdot \<le> w \<Longrightarrow> dotdot \<le> backtrack out dotdot w \<and> backtrack out dotdot w \<le> w"
  by (induction out dotdot w rule: backtrack.induct) (auto simp: le_Suc_eq)

lemma backtrack_len:
  assumes "dotdot < length out"
  shows "dotdot \<le> backtrack out dotdot (length out - 1)"
    and "backtrack out dotdot (length out - 1) \<le> length out"
proof -
  have le: "dotdot \<le> length out - 1" using assms by simp
  show "dotdot \<le> backtrack out dotdot (length out - 1)"
    using backtrack_bounds [OF le, of out] by simp
  have "backtrack out dotdot (length out - 1) \<le> length out - 1"
    using backtrack_bounds [OF le, of out] by simp
  then show "backtrack out dotdot (length out - 1) \<le> length out" by simp
qed

text \<open>On a rooted path the output buffer keeps its leading slash.\<close>

lemma clean_loop_rooted:
  "rooted \<Longrightarrow> prefix ''/'' out \<Longrightarrow> 1 \<le> dotdot \<Longrightarrow> dotdot \<le> length out \<Longrightarrow>
   prefix ''/'' (clean_loop rooted r out dotdot)"
proof (induction rooted r out dotdot rule: clean_loop.induct)
  case (1 rooted out dotdot)
  then show ?case by simp
next
  case (2 rooted c cs out dotdot)
  note IH = "2.IH" and prems = "2.prems"
  show ?case
  proof (cases "c = CHR ''/''")
    case True
    then show ?thesis using IH(1) prems by simp
  next
    case nslash: False
    show ?thesis
    proof (cases "c = CHR ''.'' \<and> (cs = [] \<or> hd cs = CHR ''/'')")
      case True
      then show ?thesis using IH(2) [OF nslash True] prems nslash by simp
    next
      case ndot: False
      show ?thesis
      proof (cases "c = CHR ''.'' \<and> hd cs = CHR ''.'' \<and> (tl cs = [] \<or> hd (tl cs) = CHR ''/'')")
        case dd: True
        show ?thesis
        proof (cases "dotdot < length out")
          case True
          have "prefix ''/'' (take (backtrack out dotdot (length out - 1)) out)"
            using backtrack_len [OF True] prems by (cases out) (auto simp: take_Cons')
          then show ?thesis
            using IH(3) [OF nslash ndot dd True] prems nslash ndot dd True backtrack_len [OF True]
            by simp
        next
          case False
          then show ?thesis
            using IH(5) [OF nslash ndot dd False] prems nslash ndot dd by simp
        qed
      next
        case False
        then show ?thesis
          using IH(6) [OF nslash ndot False] prems nslash ndot by (cases out) auto
      qed
    qed
  qed
qed

lemma Clean_rooted: "prefix ''/'' p \<Longrightarrow> prefix ''/'' (Clean p)"
  using clean_loop_rooted [of True "''/''" 1 "tl p"]
  by (cases p) (auto simp: Clean_def Let_def)

text \<open>
  Once an unrooted path has put a leading \<open>..\<close> element into the buffer, the buffer
  stays \<open>..\<close> or starts with \<open>../\<close>.
\<close>

lemma dd_prefixed_take: "dd_prefixed out \<Longrightarrow> 2 \<le> w \<Longrightarrow> dd_prefixed (take w out)"
proof -
  assume a: "dd_prefixed out" and w: "2 \<le> w"
  obtain v where v: "w = Suc (Suc v)" using w by (metis add_2_eq_Suc le_Suc_ex)
  from a show ?thesis
    unfolding dd_prefixed_def
  proof
    assume "out = ''..''"
    then show "take w out = ''..'' \<or> prefix ''../'' (take w out)" using v by simp
  next
    assume "prefix ''../'' out"
    then obtain rest where "out = ''../'' @ rest" by (auto simp: prefix_def)
    then show "take w out = ''..'' \<or> prefix ''../'' (take w out)" using v by (cases v) auto
  qed
qed

lemma clean_loop_dotdot:
  "\<not> rooted \<Longrightarrow> dd_prefixed out \<Longrightarrow> 2 \<le> dotdot \<Longrightarrow> dotdot \<le> length out \<Longrightarrow>
   dd_prefixed (clean_loop rooted r out dotdot)"
proof (induction rooted r out dotdot rule: clean_loop.induct)
  case (1 rooted out dotdot)
  then show ?case by simp
next
  case (2 rooted c cs out dotdot)
  note IH = "2.IH" and prems = "2.prems"
  have ne: "out \<noteq> []" using prems by (auto simp: dd_prefixed_def)
  show ?case
  proof (cases "c = CHR ''/''")
    case True
    then show ?thesis using IH(1) prems by simp
  next
    case nslash: False
    show ?thesis
    proof (cases "c = CHR ''.'' \<and> (cs = [] \<or> hd cs = CHR ''/'')")
      case True
      then show ?thesis using IH(2) [OF nslash True] prems nslash by simp
    next
      case ndot: False
      show ?thesis
      proof (cases "c = CHR ''.'' \<and> hd cs = CHR ''.'' \<and> (tl cs = [] \<or> hd (tl cs) = CHR ''/'')")
        case dd: True
        show ?thesis
        proof (cases "dotdot < length out")
          case True
          have "dd_prefixed (take (backtrack out dotdot (length out - 1)) out)"
            using backtrack_len [OF True] prems by (intro dd_prefixed_take) auto
          then show ?thesis
            using IH(3) [OF nslash ndot dd True] prems nslash ndot dd True backtrack_len [OF True]
            by simp
        next
          case False
          have "dd_prefixed ((out @ ''/'') @ ''..'')"
            using prems by (auto simp: dd_prefixed_def)
          then show ?thesis
            using IH(4) [OF nslash ndot dd False] prems nslash ndot dd False ne by simp
        qed
      next
        case False
        have "dd_prefixed ((out @ ''/'') @ c # takeWhile (\<lambda>x. x \<noteq> CHR ''/'') cs)"
          using prems by (auto simp: dd_prefixed_def)
        then show ?thesis
          using IH(6) [OF nslash ndot False] prems nslash ndot False ne by auto
      qed
    qed
  qed
qed

lemma Clean_dotdot_slash: "prefix ''../'' p \<Longrightarrow> dd_prefixed (Clean p)"
proof -
  assume "prefix ''../'' p"
  then obtain rest where p: "p = ''../'' @ rest" by (auto simp: prefix_def)
  have "dd_prefixed (clean_loop False (CHR ''/'' # rest) ''..'' 2)"
    by (rule clean_loop_dotdot) (auto simp: dd_prefixed_def)
  then have "dd_prefixed (clean_loop False p [] 0)" using p by (simp add: numeral_2_eq_2)
  moreover have "clean_loop False p [] 0 \<noteq> []" using calculation by (auto simp: dd_prefixed_def)
  ultimately show ?thesis using p by (simp add: Clean_def)
qed

lemma Clean_dotdot: "Clean ''..'' = ''..''"
  by (simp add: Clean_def)

text \<open>What \<open>isSafePath\<close> accepts is itself neither absolute, nor \<open>..\<close>, nor below \<open>..\<close>.\<close>

lemma isSafePath_sound:
  "isSafePath p \<Longrightarrow> \<not> prefix ''/'' p \<and> p \<noteq> ''..'' \<and> \<not> prefix ''../'' p"
  using Clean_rooted [of p] Clean_dotdot_slash [of p] Clean_dotdot
  by (auto simp: isSafePath_def HasPrefix_def Let_def dd_prefixed_def split: if_splits)

text \<open>
  Claim C5, as amended. For every \<open>basePath\<close> and \<open>href\<close>, a non-empty result of
  \<open>resolveRelativePath\<close> does not start with \<open>/\<close>, is not \<open>..\<close> and does not start
  with \<open>../\<close>: its first path element is not \<open>..\<close>, so it stays within the archive root.
\<close>

theorem resolveRelativePath_within_root:
  "resolveRelativePath basePath href \<noteq> [] \<Longrightarrow>
     \<not> HasPrefix (resolveRelativePath basePath href) ''/''
     \<and> resolveRelativePath basePath href \<noteq> ''..''
     \<and> \<not> HasPrefix (resolveRelativePath basePath href) ''../''"
  using isSafePath_sound
  by (auto simp: resolveRelativePath_def Let_def HasPrefix_def split: if_splits option.splits)

text \<open>The second example of the specification: \<open>resolve(a/b/c.opf, ../x/y) = a/x/y\<close>.\<close>

theorem resolveRelativePath_within_root_witness:
  "resolveRelativePath ''a/b/c.opf'' ''../x/y'' = ''a/x/y''
   \<and> \<not> HasPrefix (resolveRelativePath ''a/b/c.opf'' ''../x/y'') ''/''
   \<and> resolveRelativePath ''a/b/c.opf'' ''../x/y'' \<noteq> ''..''
   \<and> \<not> HasPrefix (resolveRelativePath ''a/b/c.opf'' ''../x/y'') ''../''"
proof -
  have e: "resolveRelativePath ''a/b/c.opf'' ''../x/y'' = ''a/x/y''" by code_simp
  then have "resolveRelativePath ''a/b/c.opf'' ''../x/y'' \<noteq> []" by simp
  from resolveRelativePath_within_root [OF this] e show ?thesis by simp
qed

text \<open>
  Claim C5 as stated fails: a file name may begin with two dots. The href \<open>..foo\<close>
  resolves to \<open>..foo\<close>, which is non-empty and starts with \<open>..\<close>.
\<close>

theorem resolveRelativePath_dotdot_prefix_counterexample:
  "resolveRelativePath ''a.opf'' ''..foo'' \<noteq> []
   \<and> HasPrefix (resolveRelativePath ''a.opf'' ''..foo'') ''..''"
proof -
  have "resolveRelativePath ''a.opf'' ''..foo'' = ''..foo''" by code_simp
  then show ?thesis by (simp add: HasPrefix_def)
qed

section \<open>Properties of the bounded entry read\<close>

lemma int64_id: "- (2 ^ 63) \<le> i \<Longrightarrow> i < 2 ^ 63 \<Longrightarrow> int64 i = i"
  by (simp add: int64_def)

lemma uint64_id: "0 \<le> i \<Longrightarrow> i < 2 ^ 64 \<Longrightarrow> uint64 i = i"
  by (simp add: uint64_def)

text \<open>
  Within \<open>readZipFileWithLimit\<close> the limited reader gets a budget that is at most 0
  or above the declared size.
\<close>

lemma readZipFileWithLimit_budget:
  assumes "- (2 ^ 63) \<le> limit" and "limit < 2 ^ 63"
    and "\<not> int (UncompressedSize64 f) > uint64 limit"
  shows "int64 (limit + 1) \<le> 0 \<or> int (UncompressedSize64 f) < int64 (limit + 1)"
proof (cases "0 \<le> limit \<and> limit < 2 ^ 63 - 1")
  case True
  then have "uint64 limit = limit" "int64 (limit + 1) = limit + 1"
    by (auto intro: uint64_id int64_id)
  then show ?thesis using assms(3) by simp
next
  case False
  then consider "limit < 0" | "limit = 2 ^ 63 - 1" using assms(2) by linarith
  then show ?thesis
  proof cases
    case 1
    then have "int64 (limit + 1) = limit + 1" using assms(1) by (intro int64_id) auto
    then show ?thesis using 1 by simp
  next
    case 2
    then have "int64 (limit + 1) = - (2 ^ 63)" by (simp add: int64_def)
    then show ?thesis by simp
  qed
qed




section \<open>Properties of the DRM detector\<close>

lemma find_Some_list_ex: "(\<exists>x. find P xs = Some x) = list_ex P xs"
  by (induction xs) auto

text \<open>The lookup finds an entry exactly when some entry has the name up to case.\<close>

lemma findFileInsensitive_found:
  "(findFileInsensitive zr name \<noteq> None) = list_ex (\<lambda>f. ToLower (Name f) = ToLower name) zr"
proof (cases "find (\<lambda>f. Name f = name) zr")
  case None
  then show ?thesis
    using find_Some_list_ex [of "\<lambda>f. ToLower (Name f) = ToLower name" zr]
    by (auto simp: findFileInsensitive_def)
next
  case (Some f)
  then have "f \<in> set zr \<and> Name f = name"
    by (induction zr) (auto split: if_splits)
  then have "list_ex (\<lambda>f. ToLower (Name f) = ToLower name) zr"
    by (auto simp: list_ex_iff)
  then show ?thesis using Some by (simp add: findFileInsensitive_def)
qed

lemma checkDRM_loop_all_obfuscation:
  "list_all (\<lambda>ed. fontObfuscationAlgorithms (Algorithm ed)) enc \<Longrightarrow>
   checkDRM_loop enc fo = Inr (fo \<or> enc \<noteq> [])"
  by (induction enc arbitrary: fo) (auto simp: Let_def)

lemma checkDRM_loop_some_other:
  "list_ex (\<lambda>ed. \<not> fontObfuscationAlgorithms (Algorithm ed)) enc \<Longrightarrow>
   checkDRM_loop enc fo = Inl ErrDRMProtected"
  by (induction enc arbitrary: fo) (auto simp: Let_def)

text \<open>Neither font obfuscation URI contains a DRM signature.\<close>

lemma signature_not_obfuscation: "isDRMSignature algo \<Longrightarrow> \<not> fontObfuscationAlgorithms algo"
proof
  assume a: "isDRMSignature algo" and "fontObfuscationAlgorithms algo"
  then consider "algo = ''http://www.idpf.org/2008/embedding''"
    | "algo = ''http://ns.adobe.com/pdf/enc#RC''"
    by (auto simp: fontObfuscationAlgorithms_def)
  then show False
  proof cases
    case 1
    have "\<not> isDRMSignature ''http://www.idpf.org/2008/embedding''" by code_simp
    then show False using a 1 by simp
  next
    case 2
    have "\<not> isDRMSignature ''http://ns.adobe.com/pdf/enc#RC''" by code_simp
    then show False using a 2 by simp
  qed
qed

text \<open>
  Claim C6. \<open>checkDRM\<close> concludes \<open>ErrDRMProtected\<close> at once when some entry is named
  \<open>META-INF/sinf.xml\<close> up to case. Otherwise: without an entry \<open>META-INF/encryption.xml\<close>
  it succeeds with the flag false; when that entry is read, it concludes
  \<open>ErrDRMProtected\<close> if the descriptor does not decode, or if some \<open>EncryptedData\<close>
  has an algorithm that is not a font obfuscation URI or that contains a DRM signature;
  and when every \<open>EncryptedData\<close> is font obfuscation it succeeds, the flag being true
  exactly when there is at least one. The flag makes \<open>initBook\<close> append a warning and
  go on: it does not block the opening.
\<close>

theorem checkDRM_classification:
  "(list_ex (\<lambda>f. ToLower (Name f) = ToLower sinfFilePath) zr \<longrightarrow>
      checkDRM unmarshal zr = Inl ErrDRMProtected)
   \<and> (\<not> list_ex (\<lambda>f. ToLower (Name f) = ToLower sinfFilePath) zr \<longrightarrow>
        (findFileInsensitive zr encryptionFilePath = None \<longrightarrow> checkDRM unmarshal zr = Inr False)
      \<and> (\<forall>f data. findFileInsensitive zr encryptionFilePath = Some f \<and> readZipFile f = Inr data \<longrightarrow>
            (unmarshal (stripBOM data) = None \<longrightarrow> checkDRM unmarshal zr = Inl ErrDRMProtected)
          \<and> (\<forall>enc. unmarshal (stripBOM data) = Some enc \<longrightarrow>
                (list_ex (\<lambda>ed. \<not> fontObfuscationAlgorithms (Algorithm ed)
                                \<or> isDRMSignature (Algorithm ed)) enc \<longrightarrow>
                   checkDRM unmarshal zr = Inl ErrDRMProtected)
              \<and> (list_all (\<lambda>ed. fontObfuscationAlgorithms (Algorithm ed)) enc \<longrightarrow>
                   checkDRM unmarshal zr = Inr (enc \<noteq> [])
                   \<and> initBook_checkDRM unmarshal zr warnings =
                       Inr (if enc \<noteq> [] then warnings @ [fontObfuscationWarning] else warnings)))))"
proof (intro conjI impI allI)
  assume "list_ex (\<lambda>f. ToLower (Name f) = ToLower sinfFilePath) zr"
  then show "checkDRM unmarshal zr = Inl ErrDRMProtected"
    using findFileInsensitive_found [of zr sinfFilePath] by (simp add: checkDRM_def)
next
  assume "\<not> list_ex (\<lambda>f. ToLower (Name f) = ToLower sinfFilePath) zr"
  then have nosinf: "findFileInsensitive zr sinfFilePath = None"
    using findFileInsensitive_found [of zr sinfFilePath] by simp
  {
    assume "findFileInsensitive zr encryptionFilePath = None"
    then show "checkDRM unmarshal zr = Inr False"
      using nosinf by (simp add: checkDRM_def)
  }
  fix f data
  assume fd: "findFileInsensitive zr encryptionFilePath = Some f \<and> readZipFile f = Inr data"
  {
    assume "unmarshal (stripBOM data) = None"
    then show "checkDRM unmarshal zr = Inl ErrDRMProtected"
      using nosinf fd by (simp add: checkDRM_def)
  }
  fix enc
  assume enc: "unmarshal (stripBOM data) = Some enc"
  {
    assume "list_ex (\<lambda>ed. \<not> fontObfuscationAlgorithms (Algorithm ed)
                          \<or> isDRMSignature (Algorithm ed)) enc"
    then have ex: "list_ex (\<lambda>ed. \<not> fontObfuscationAlgorithms (Algorithm ed)) enc"
      using signature_not_obfuscation unfolding list_ex_iff by blast
    then have "enc \<noteq> []" by auto
    then show "checkDRM unmarshal zr = Inl ErrDRMProtected"
      using nosinf fd enc checkDRM_loop_some_other [OF ex] by (simp add: checkDRM_def)
  }
  assume all: "list_all (\<lambda>ed. fontObfuscationAlgorithms (Algorithm ed)) enc"
  show r: "checkDRM unmarshal zr = Inr (enc \<noteq> [])"
    using nosinf fd enc checkDRM_loop_all_obfuscation [OF all] by (simp add: checkDRM_def)
  show "initBook_checkDRM unmarshal zr warnings =
          Inr (if enc \<noteq> [] then warnings @ [fontObfuscationWarning] else warnings)"
    by (simp add: initBook_checkDRM_def r)
qed

text \<open>
  The two scenarios of the specification: the FairPlay marker rejects the archive, and
  a descriptor with one font obfuscation entry opens with a warning. The marker also
  rejects the archive under a name that only the Unicode case mapping lowers to
  \<open>meta-inf/sinf.xml\<close>.
\<close>

theorem checkDRM_classification_witness:
  "checkDRM descriptorUnmarshal fairPlayArchive = Inl ErrDRMProtected
   \<and> checkDRM descriptorUnmarshal dottedArchive = Inl ErrDRMProtected
   \<and> checkDRM descriptorUnmarshal obfuscatedArchive = Inr True
   \<and> initBook_checkDRM descriptorUnmarshal obfuscatedArchive [] = Inr [fontObfuscationWarning]"
proof -
  have a: "list_ex (\<lambda>f. ToLower (Name f) = ToLower sinfFilePath) fairPlayArchive"
    by code_simp
  have a': "list_ex (\<lambda>f. ToLower (Name f) = ToLower sinfFilePath) dottedArchive"
    by code_simp
  have b: "\<not> list_ex (\<lambda>f. ToLower (Name f) = ToLower sinfFilePath) obfuscatedArchive"
    by code_simp
  have c: "findFileInsensitive obfuscatedArchive encryptionFilePath = Some (obfuscatedArchive ! 1)"
    by code_simp
  have d: "readZipFile (obfuscatedArchive ! 1) = Inr encryptionDescriptor" by code_simp
  have u: "descriptorUnmarshal (stripBOM encryptionDescriptor) = Some idpfObfuscation"
    by code_simp
  have e: "list_all (\<lambda>ed. fontObfuscationAlgorithms (Algorithm ed)) idpfObfuscation"
    by code_simp
  have f: "idpfObfuscation \<noteq> []" by (simp add: idpfObfuscation_def)
  show ?thesis
    using checkDRM_classification [of fairPlayArchive descriptorUnmarshal] a
      checkDRM_classification [of dottedArchive descriptorUnmarshal] a'
      checkDRM_classification [of obfuscatedArchive descriptorUnmarshal "[]"] b c d u e f
    by simp
qed

section \<open>Properties of the manifest maps\<close>

lemma find_app:
  "find P (xs @ ys) = (case find P xs of None \<Rightarrow> find P ys | Some x \<Rightarrow> Some x)"
  by (induction xs) auto

lemma buildManifestMaps_loop_byID:
  "fst (buildManifestMaps_loop items (byID, byHref)) k =
     (case find (\<lambda>i. item_ID i = k) (rev items) of
        None \<Rightarrow> byID k
      | Some i \<Rightarrow> Some (newManifestItem i))"
  by (induction items arbitrary: byID byHref) (auto simp: find_app split: option.splits)

lemma buildManifestMaps_loop_byHref:
  "snd (buildManifestMaps_loop items (byID, byHref)) k =
     (case find (\<lambda>i. item_Href i = k) (rev items) of
        None \<Rightarrow> byHref k
      | Some i \<Rightarrow> Some (newManifestItem i))"
  by (induction items arbitrary: byID byHref) (auto simp: find_app split: option.splits)

text \<open>
  Claim C2, as amended. \<open>buildManifestMaps\<close> yields two maps, keyed by id and by href;
  a lookup returns the LAST manifest item in document order that carries the key
  (the first one found when the item list is read backwards), and nothing when no item
  carries it. Later items overwrite earlier ones.
\<close>

theorem buildManifestMaps_last_wins:
  "fst (buildManifestMaps manifest) k =
     map_option newManifestItem (find (\<lambda>i. item_ID i = k) (rev (Items manifest)))
   \<and> snd (buildManifestMaps manifest) k =
     map_option newManifestItem (find (\<lambda>i. item_Href i = k) (rev (Items manifest)))"
  unfolding buildManifestMaps_def
  by (simp add: buildManifestMaps_loop_byID buildManifestMaps_loop_byHref split: option.splits)

text \<open>
  Claim C2 as stated fails: with two items of the same id and href, the lookups by id
  and by href both return the second item, not the first.
\<close>

theorem buildManifestMaps_first_wins_counterexample:
  "fst (buildManifestMaps dupManifest) ''a'' \<noteq> Some (newManifestItem (Items dupManifest ! 0))
   \<and> snd (buildManifestMaps dupManifest) ''x.png'' \<noteq> Some (newManifestItem (Items dupManifest ! 0))
   \<and> fst (buildManifestMaps dupManifest) ''a'' = Some (newManifestItem (Items dupManifest ! 1))
   \<and> snd (buildManifestMaps dupManifest) ''x.png'' = Some (newManifestItem (Items dupManifest ! 1))"
  by (simp add: buildManifestMaps_def dupManifest_def newManifestItem_def)

section \<open>Properties of the title order\<close>













section \<open>Spine ranges of the opened book\<close>

lemma flattenTOCItems_Cons:
  "flattenTOCItems (it # items) = it # flattenTOCItems (Children it) @ flattenTOCItems items"
  by (cases it) simp

lemma unassigned_Nil: "unassigned []"
  by (simp add: unassigned_def)

lemma unassigned_Cons:
  "unassigned (it # items) =
     (SpineIndex it = - 1 \<and> SpineEndIndex it = - 1 \<and> unassigned (Children it) \<and> unassigned items)"
  by (auto simp: unassigned_def flattenTOCItems_Cons)

lemma assigned_Nil: "assigned n []"
  by (simp add: assigned_def)

lemma assigned_Cons:
  "assigned n (it # items) =
     (SpineEndIndex it = - 1 \<and> (SpineIndex it = - 1 \<or> (0 \<le> SpineIndex it \<and> SpineIndex it < n))
      \<and> assigned n (Children it) \<and> assigned n items)"
  by (auto simp: assigned_def flattenTOCItems_Cons)

text \<open>The parsers set no index.\<close>

lemma convertNavPoints_unassigned: "unassigned (convertNavPoints ps ncxPath)"
  by (induction ps ncxPath rule: convertNavPoints.induct)
    (simp_all add: unassigned_Nil unassigned_Cons)

lemma parseNav_unassigned:
  "unassigned (parseNavOL_children cs basePath)"
  "SpineIndex item = - 1 \<and> SpineEndIndex item = - 1 \<and> unassigned (Children item) \<Longrightarrow>
     SpineIndex (parseNavLI_children ds basePath' item) = - 1
     \<and> SpineEndIndex (parseNavLI_children ds basePath' item) = - 1
     \<and> unassigned (Children (parseNavLI_children ds basePath' item))"
proof (induction cs basePath and ds basePath' item rule: parseNavOL_children_parseNavLI_children.induct)
  case (1 basePath)
  then show ?case by (simp add: unassigned_Nil)
next
  case (2 t d attrs children cs basePath)
  then show ?case by (simp add: unassigned_Cons unassigned_Nil)
next
  case (3 basePath item)
  then show ?case by simp
next
  case (4 t d attrs children cs basePath item)
  then show ?case by (simp add: Let_def)
qed

lemma parseNavDocument_loop_unassigned:
  "unassigned t \<Longrightarrow> unassigned (fst (parseNavDocument_loop navs basePath (t, l)))"
  by (induction navs basePath "(t, l)" arbitrary: t l rule: parseNavDocument_loop.induct)
    (auto simp: parseNavOL_def parseNav_unassigned(1) split: option.splits)

text \<open>\<open>assignSpineIndices\<close> writes indices of the spine map, which are positions of the spine.\<close>

lemma assignSpineIndices_assigned:
  "unassigned items \<Longrightarrow> \<forall>k i. spineMap k = Some i \<longrightarrow> 0 \<le> i \<and> i < n \<Longrightarrow>
   assigned n (assignSpineIndices items spineMap)"
  by (induction items spineMap rule: assignSpineIndices.induct)
    (auto simp: unassigned_Cons assigned_Cons assigned_Nil split: option.splits)

lemma buildSpineMap_range:
  "buildSpineMap b spine i m k = Some v \<Longrightarrow>
   m k = Some v \<or> (i \<le> v \<and> v < i + int (length spine))"
proof (induction spine arbitrary: i m)
  case Nil
  then show ?case by simp
next
  case (Cons si spine)
  define m' where "m' = m(resolveOPFPath b (si_Href si) \<mapsto> i)"
  have "buildSpineMap b spine (i + 1) m' k = Some v" using Cons.prems by (simp add: m'_def)
  from Cons.IH [OF this]
  have "m' k = Some v \<or> (i + 1 \<le> v \<and> v < i + 1 + int (length spine))" .
  then show ?case by (auto simp: m'_def split: if_splits)
qed

text \<open>
  The loops of \<open>computeSpineRanges\<close>: the collected indices are the distinct spine
  indices of the tree; the end map sends each of them to a larger index, at most the
  length of the spine; every entry of the result is an entry of the tree with its end
  index read from the end map.
\<close>

lemma collectIndices_set:
  "\<forall>x. seen x = (x \<in> set acc) \<Longrightarrow>
   set (collectIndices flat seen acc)
     = set acc \<union> {SpineIndex it | it. it \<in> set flat \<and> 0 \<le> SpineIndex it}"
proof (induction flat arbitrary: seen acc)
  case Nil
  then show ?case by simp
next
  case (Cons item flat)
  show ?case
  proof (cases "0 \<le> SpineIndex item \<and> \<not> seen (SpineIndex item)")
    case True
    define seen' where "seen' = seen(SpineIndex item := True)"
    have "\<forall>x. seen' x = (x \<in> set (acc @ [SpineIndex item]))"
      using Cons.prems by (simp add: seen'_def)
    from Cons.IH [OF this]
    have "set (collectIndices flat seen' (acc @ [SpineIndex item]))
        = set (acc @ [SpineIndex item]) \<union> {SpineIndex it | it. it \<in> set flat \<and> 0 \<le> SpineIndex it}" .
    moreover have "collectIndices (item # flat) seen acc
        = collectIndices flat seen' (acc @ [SpineIndex item])"
      using True by (simp add: seen'_def)
    ultimately show ?thesis using True by auto
  next
    case False
    from Cons.IH [OF Cons.prems] False Cons.prems show ?thesis by auto
  qed
qed

lemma collectIndices_distinct:
  "\<forall>x. seen x = (x \<in> set acc) \<Longrightarrow> distinct acc \<Longrightarrow> distinct (collectIndices flat seen acc)"
proof (induction flat arbitrary: seen acc)
  case Nil
  then show ?case by simp
next
  case (Cons item flat)
  show ?case
  proof (cases "0 \<le> SpineIndex item \<and> \<not> seen (SpineIndex item)")
    case True
    define seen' where "seen' = seen(SpineIndex item := True)"
    have "\<forall>x. seen' x = (x \<in> set (acc @ [SpineIndex item]))"
      using Cons.prems by (simp add: seen'_def)
    moreover have "distinct (acc @ [SpineIndex item])" using Cons.prems True by simp
    ultimately have "distinct (collectIndices flat seen' (acc @ [SpineIndex item]))"
      by (rule Cons.IH)
    moreover have "collectIndices (item # flat) seen acc
        = collectIndices flat seen' (acc @ [SpineIndex item])"
      using True by (simp add: seen'_def)
    ultimately show ?thesis by simp
  next
    case False
    then show ?thesis using Cons by auto
  qed
qed

lemma buildEndMap_other: "x \<notin> set xs \<Longrightarrow> buildEndMap xs n m x = m x"
  by (induction xs n m rule: buildEndMap.induct) auto

lemma buildEndMap_range:
  "sorted_wrt (<) xs \<Longrightarrow> x \<in> set xs \<Longrightarrow> \<forall>y \<in> set xs. y < n \<Longrightarrow>
   \<exists>e. buildEndMap xs n m x = Some e \<and> x < e \<and> e \<le> n"
proof (induction xs n m rule: buildEndMap.induct)
  case (1 spineLen endMap)
  then show ?case by simp
next
  case (2 idx spineLen endMap)
  then show ?case by simp
next
  case (3 idx nxt indices spineLen endMap)
  show ?case
  proof (cases "x = idx")
    case True
    then have "x \<notin> set (nxt # indices)" using "3.prems"(1) by auto
    then have "buildEndMap (nxt # indices) spineLen (endMap(idx \<mapsto> nxt)) x = Some nxt"
      using True by (simp add: buildEndMap_other del: buildEndMap.simps)
    then show ?thesis using True "3.prems" by simp
  next
    case False
    then have "sorted_wrt (<) (nxt # indices)" "x \<in> set (nxt # indices)"
        "\<forall>y \<in> set (nxt # indices). y < spineLen"
      using "3.prems" by auto
    from "3.IH" [OF this] show ?thesis by (simp only: buildEndMap.simps)
  qed
qed

lemma applySpineEnd_flat:
  "it' \<in> set (flattenTOCItems (applySpineEnd m items)) \<Longrightarrow>
   \<exists>it \<in> set (flattenTOCItems items).
     SpineIndex it' = SpineIndex it
     \<and> SpineEndIndex it' =
         (if 0 \<le> SpineIndex it then (case m (SpineIndex it) of Some e \<Rightarrow> e | None \<Rightarrow> 0) else - 1)"
proof (induction m items rule: applySpineEnd.induct)
  case (1 endMap)
  then show ?case by simp
next
  case (2 endMap title href children spineIndex spineEndIndex items)
  let ?item = "TOCItem title href children spineIndex spineEndIndex"
  let ?new = "TOCItem title href (applySpineEnd endMap children) spineIndex
       (if 0 \<le> spineIndex then (case endMap spineIndex of Some e \<Rightarrow> e | None \<Rightarrow> 0) else - 1)"
  let ?P = "\<lambda>it. SpineIndex it' = SpineIndex it
     \<and> SpineEndIndex it' =
         (if 0 \<le> SpineIndex it then (case endMap (SpineIndex it) of Some e \<Rightarrow> e | None \<Rightarrow> 0)
          else - 1)"
  have flat: "set (flattenTOCItems (?item # items))
      = insert ?item (set (flattenTOCItems children) \<union> set (flattenTOCItems items))"
    by simp
  from "2.prems" consider (head) "it' = ?new"
    | (children) "it' \<in> set (flattenTOCItems (applySpineEnd endMap children))"
    | (items) "it' \<in> set (flattenTOCItems (applySpineEnd endMap items))"
    by auto
  then have "\<exists>it \<in> insert ?item (set (flattenTOCItems children) \<union> set (flattenTOCItems items)). ?P it"
  proof cases
    case head
    then have "?P ?item" by simp
    then show ?thesis by blast
  next
    case children
    from "2.IH"(1) [OF this] show ?thesis by blast
  next
    case items
    from "2.IH"(2) [OF this] show ?thesis by blast
  qed
  then show ?case unfolding flat .
qed

lemma computeSpineRanges_ok:
  assumes "assigned n items" and "it' \<in> set (flattenTOCItems (computeSpineRanges items n))"
  shows "spineRangeOK n it'"
proof -
  let ?flat = "flattenTOCItems items"
  let ?indices = "collectIndices ?flat (\<lambda>i. False) []"
  have iset: "set ?indices = {SpineIndex it | it. it \<in> set ?flat \<and> 0 \<le> SpineIndex it}"
    using collectIndices_set [of "\<lambda>i. False" "[]" ?flat] by simp
  have idist: "distinct ?indices"
    using collectIndices_distinct [of "\<lambda>i. False" "[]" ?flat] by simp
  show ?thesis
  proof (cases "items = [] \<or> ?indices = []")
    case True
    then have same: "computeSpineRanges items n = items"
      by (auto simp: computeSpineRanges_def Let_def)
    then have mem: "it' \<in> set ?flat" using assms(2) by simp
    show ?thesis
    proof (cases "items = []")
      case True
      then show ?thesis using mem by simp
    next
      case False
      then have "?indices = []" using True by simp
      then have "\<not> 0 \<le> SpineIndex it'" using iset mem by auto
      then show ?thesis using assms(1) mem by (auto simp: assigned_def spineRangeOK_def)
    qed
  next
    case False
    then have "computeSpineRanges items n
        = applySpineEnd (buildEndMap (sort ?indices) n Map.empty) items"
      by (auto simp: computeSpineRanges_def Let_def)
    with assms(2) applySpineEnd_flat obtain it where it: "it \<in> set ?flat"
        "SpineIndex it' = SpineIndex it"
        "SpineEndIndex it' =
           (if 0 \<le> SpineIndex it
            then (case buildEndMap (sort ?indices) n Map.empty (SpineIndex it) of
                    Some e \<Rightarrow> e | None \<Rightarrow> 0)
            else - 1)"
      by fastforce
    show ?thesis
    proof (cases "0 \<le> SpineIndex it")
      case True
      then have "SpineIndex it \<in> set (sort ?indices)" using iset it(1) by auto
      moreover have "sorted_wrt (<) (sort ?indices)"
        using idist by (simp add: strict_sorted_iff)
      moreover have "\<forall>y \<in> set (sort ?indices). y < n"
        using iset assms(1) by (auto simp: assigned_def)
      ultimately obtain e where
        "buildEndMap (sort ?indices) n Map.empty (SpineIndex it) = Some e"
        "SpineIndex it < e" "e \<le> n"
        using buildEndMap_range by blast
      then show ?thesis using True it by (simp add: spineRangeOK_def)
    next
      case False
      then have "SpineIndex it = - 1" using assms(1) it(1) by (auto simp: assigned_def)
      then show ?thesis using False it by (simp add: spineRangeOK_def)
    qed
  qed
qed

lemma spineMap_range:
  "buildSpineMap b (bk_spine b) 0 Map.empty k = Some i \<Longrightarrow> 0 \<le> i \<and> i < int (length (bk_spine b))"
  using buildSpineMap_range [of b "bk_spine b" 0 Map.empty k i] by simp

lemma parseNavTOC_assigned:
  assumes "parseNavTOC htmlParse b spineMap = (Some (t, l), b1)"
    and "\<forall>k i. spineMap k = Some i \<longrightarrow> 0 \<le> i \<and> i < n"
  shows "assigned n t"
proof -
  have u: "unassigned t'" if "parseNavDocument_loop navs navPath ([], []) = (t', l')"
    for navs navPath t' l'
    using parseNavDocument_loop_unassigned [OF unassigned_Nil, of navs navPath "[]"] that by simp
  show ?thesis
    using assms(1)
    by (auto simp: parseNavTOC_def parseNavDocument_def Let_def
        split: option.splits sum.splits prod.splits
        intro!: assignSpineIndices_assigned [OF _ assms(2)] dest: u)
qed

lemma parseNCXTOC_assigned:
  assumes "parseNCXTOC unmarshal b spineMap = (Some t, b1)"
    and "\<forall>k i. spineMap k = Some i \<longrightarrow> 0 \<le> i \<and> i < n"
  shows "assigned n t"
  using assms(1)
  by (auto simp: parseNCXTOC_def parseNCX_def Let_def
      split: option.splits sum.splits prod.splits if_splits
      intro!: assignSpineIndices_assigned [OF convertNavPoints_unassigned assms(2)])

lemma parseTOC_ncx_ok:
  assumes "\<forall>k i. spineMap k = Some i \<longrightarrow> 0 \<le> i \<and> i < int (length (bk_spine b))"
    and "it \<in> set (flattenTOCItems (bk_toc (parseTOC_ncx unmarshal b spineMap)))"
  shows "spineRangeOK (int (length (bk_spine b))) it"
proof (cases "parseNCXTOC unmarshal b spineMap")
  case (Pair r b1)
  show ?thesis
  proof (cases r)
    case None
    then show ?thesis using assms(2) Pair by (simp add: parseTOC_ncx_def)
  next
    case (Some t)
    then have "assigned (int (length (bk_spine b))) t"
      using parseNCXTOC_assigned Pair assms(1) by blast
    then show ?thesis
      using computeSpineRanges_ok assms(2) Pair Some by (simp add: parseTOC_ncx_def)
  qed
qed

lemma parseNavTOC_spine: "bk_spine (snd (parseNavTOC htmlParse b spineMap)) = bk_spine b"
  by (simp add: parseNavTOC_def Let_def split: option.splits sum.splits prod.splits)

text \<open>
  In the \<open>toc\<close> tree that \<open>parseTOC\<close> stores, whatever the navigation document or
  the NCX document holds, every entry (at every depth) has no spine association or a
  non-empty range within the spine.
\<close>

theorem parseTOC_toc_spine_ranges:
  "\<forall>item \<in> set (flattenTOCItems (bk_toc (parseTOC htmlParse unmarshal b))).
     spineRangeOK (int (length (bk_spine b))) item"
proof
  fix item
  let ?m = "buildSpineMap b (bk_spine b) 0 Map.empty"
  let ?n = "int (length (bk_spine b))"
  assume a: "item \<in> set (flattenTOCItems (bk_toc (parseTOC htmlParse unmarshal b)))"
  have r: "\<forall>k i. ?m k = Some i \<longrightarrow> 0 \<le> i \<and> i < ?n" using spineMap_range by blast
  show "spineRangeOK ?n item"
  proof (cases "HasPrefix (pkg_Version (bk_opf b)) ''3''")
    case False
    then have "parseTOC htmlParse unmarshal b = parseTOC_ncx unmarshal b ?m"
      by (simp add: parseTOC_def Let_def)
    then show ?thesis using parseTOC_ncx_ok [OF r] a by simp
  next
    case True
    obtain res b1 where p: "parseNavTOC htmlParse b ?m = (res, b1)"
      by (cases "parseNavTOC htmlParse b ?m")
    have s: "bk_spine b1 = bk_spine b" using parseNavTOC_spine [of htmlParse b ?m] p by simp
    show ?thesis
    proof (cases res)
      case None
      then have "parseTOC htmlParse unmarshal b = parseTOC_ncx unmarshal b1 ?m"
        using True p by (simp add: parseTOC_def Let_def)
      then show ?thesis using parseTOC_ncx_ok [of ?m b1 item unmarshal] r a s by simp
    next
      case (Some tl)
      obtain t l where tl: "tl = (t, l)" by (cases tl)
      have "assigned ?n t" using parseNavTOC_assigned p Some tl r by blast
      moreover have "bk_toc (parseTOC htmlParse unmarshal b) = computeSpineRanges t ?n"
        using True p Some tl by (simp add: parseTOC_def Let_def)
      ultimately show ?thesis using computeSpineRanges_ok a by simp
    qed
  qed
qed

text \<open>The \<open>toc\<close> entry of the example book with a landmarks list.\<close>

theorem parseTOC_toc_spine_ranges_witness:
  "flattenTOCItems (bk_toc landmarkBook) = [TOCItem ''One'' ''OEBPS/ch1.xhtml'' [] 0 2]
   \<and> spineRangeOK 2 (TOCItem ''One'' ''OEBPS/ch1.xhtml'' [] 0 2)"
proof -
  let ?b = "initBook_fields landmarkArchive ''OEBPS/content.opf'' landmarkPackage"
  have b: "parseTOC landmarkHtmlParse noNCX ?b = landmarkBook"
    by (simp add: landmarkBook_def initBook_package_def)
  have len: "int (length (bk_spine ?b)) = 2" by code_simp
  have toc: "flattenTOCItems (bk_toc landmarkBook) = [TOCItem ''One'' ''OEBPS/ch1.xhtml'' [] 0 2]"
    by code_simp
  from parseTOC_toc_spine_ranges [of landmarkHtmlParse noNCX ?b]
  have "spineRangeOK 2 (TOCItem ''One'' ''OEBPS/ch1.xhtml'' [] 0 2)"
    unfolding b len toc by simp
  then show ?thesis using toc by simp
qed

text \<open>
  Claim C1 fails on the landmarks. In a version 3 book whose navigation document has
  a \<open>toc\<close> list and a \<open>landmarks\<close> list, \<open>parseTOC\<close> assigns spine indices to both
  trees but computes spine ranges for the \<open>toc\<close> tree only. The landmark entry for the
  second of two spine items keeps spine index 1 and spine end index -1, which is
  neither of the two cases of the property, while the \<open>toc\<close> entry for the first
  spine item covers the range from 0 to 2.
\<close>

theorem parseTOC_landmarks_without_range:
  "length (bk_spine landmarkBook) = 2
   \<and> bk_toc landmarkBook = [TOCItem ''One'' ''OEBPS/ch1.xhtml'' [] 0 2]
   \<and> bk_landmarks landmarkBook = [TOCItem ''Start'' ''OEBPS/ch2.xhtml'' [] 1 (- 1)]
   \<and> \<not> spineRangeOK (int (length (bk_spine landmarkBook))) (hd (bk_landmarks landmarkBook))"
proof -
  have a: "length (bk_spine landmarkBook) = 2" by code_simp
  have b: "bk_toc landmarkBook = [TOCItem ''One'' ''OEBPS/ch1.xhtml'' [] 0 2]" by code_simp
  have c: "bk_landmarks landmarkBook = [TOCItem ''Start'' ''OEBPS/ch2.xhtml'' [] 1 (- 1)]"
    by code_simp
  have d: "\<not> spineRangeOK 2 (TOCItem ''Start'' ''OEBPS/ch2.xhtml'' [] 1 (- 1))"
    by (simp add: spineRangeOK_def)
  show ?thesis using a b c d by simp
qed

section \<open>Properties of the chapter list\<close>

lemma Chapters_fresh:
  "bk_chapters b = None \<Longrightarrow>
   fst (Chapters b) = map (newChapter b (buildTOCTitleMap (bk_toc b))) (bk_spine b)
   \<and> bk_chapters (snd (Chapters b)) = Some (fst (Chapters b))"
  by (simp add: Chapters_def Let_def)

text \<open>
  On a book whose chapter list is not built yet, \<open>Chapters\<close> returns exactly one
  chapter per spine item, in spine order (the ids and the linear flags are those of the
  spine items), and the href of the chapter at spine position \<open>i\<close> is \<open>resolveOPFPath\<close>
  of the href of spine item \<open>i\<close>: the package directory joined with the href by
  \<open>path.Join\<close>, with no decoding of the href. A second call returns the same list.
\<close>

lemma Chapters_per_spine_item:
  "bk_chapters b = None \<Longrightarrow>
     length (fst (Chapters b)) = length (bk_spine b)
     \<and> map ch_ID (fst (Chapters b)) = map si_ID (bk_spine b)
     \<and> map ch_Linear (fst (Chapters b)) = map si_Linear (bk_spine b)
     \<and> map ch_Href (fst (Chapters b)) = map (\<lambda>si. resolveOPFPath b (si_Href si)) (bk_spine b)
     \<and> fst (Chapters (snd (Chapters b))) = fst (Chapters b)"
proof -
  assume fresh: "bk_chapters b = None"
  have "fst (Chapters (snd (Chapters b))) = fst (Chapters b)"
    using Chapters_fresh [OF fresh] by (simp add: Chapters_def [of "snd (Chapters b)"])
  then show ?thesis
    using Chapters_fresh [OF fresh]
    by (simp add: newChapter_def Let_def comp_def)
qed

text \<open>
  Claim C3 fails on a manifest href with a percent-encoded byte. The book has two
  spine items; the first one refers to the entry \<open>OEBPS/chapter 1.xhtml\<close> by the href
  \<open>chapter%201.xhtml\<close>. \<open>Chapters\<close> returns the two chapters in spine order, but the
  href of the first chapter keeps the encoded byte: it is not the path that the path
  resolver gives, and it is not the path of an entry of the archive, so that the chapter
  cannot be read, while the resolver's path reads.
\<close>

theorem Chapters_href_names_no_entry:
  "map si_Href (bk_spine encodedBook) = [''chapter%201.xhtml'', ''ch2.xhtml'']
   \<and> map ch_Href (fst (Chapters encodedBook)) = [''OEBPS/chapter%201.xhtml'', ''OEBPS/ch2.xhtml'']
   \<and> map (\<lambda>si. resolveRelativePath (bk_opfPath encodedBook) (si_Href si)) (bk_spine encodedBook)
       = [''OEBPS/chapter 1.xhtml'', ''OEBPS/ch2.xhtml'']
   \<and> ReadFile encodedBook ''OEBPS/chapter%201.xhtml'' = Inl ErrFileNotFound
   \<and> ReadFile encodedBook ''OEBPS/chapter 1.xhtml'' = Inr ''<html><body><p>One</p></body></html>''"
proof -
  have a: "map si_Href (bk_spine encodedBook) = [''chapter%201.xhtml'', ''ch2.xhtml'']"
    by code_simp
  have b: "map ch_Href (fst (Chapters encodedBook))
      = [''OEBPS/chapter%201.xhtml'', ''OEBPS/ch2.xhtml'']"
    by code_simp
  have c: "map (\<lambda>si. resolveRelativePath (bk_opfPath encodedBook) (si_Href si)) (bk_spine encodedBook)
       = [''OEBPS/chapter 1.xhtml'', ''OEBPS/ch2.xhtml'']"
    by code_simp
  have d: "ReadFile encodedBook ''OEBPS/chapter%201.xhtml'' = Inl ErrFileNotFound" by code_simp
  have e: "ReadFile encodedBook ''OEBPS/chapter 1.xhtml'' = Inr ''<html><body><p>One</p></body></html>''"
    by code_simp
  show ?thesis using a b c d e by simp
qed

section \<open>Properties of the license detection\<close>

lemma readFile_chapters_update [simp]: "readFile (b\<lparr>bk_chapters := c\<rparr>) name = readFile b name"
  by (simp add: readFile_def ReadFile_def findFile_def split: option.splits)

lemma readFile_snd_Chapters [simp]: "readFile (snd (Chapters b)) name = readFile b name"
  by (simp add: Chapters_def Let_def split: option.splits)








section \<open>Properties of the cover cascade\<close>

text \<open>No failure of reading an entry is the error \<open>ErrNoCover\<close>.\<close>

lemma readZipFile_not_NoCover: "readZipFile f \<noteq> Inl ErrNoCover"
  by (auto simp: readZipFile_def readZipFileWithLimit_def Let_def
      split: prod.splits if_splits option.splits)

lemma loadCoverImage_not_NoCover: "loadCoverImage b item \<noteq> Inl ErrNoCover"
  using readZipFile_not_NoCover
  by (auto simp: loadCoverImage_def ReadFile_def Let_def split: option.splits sum.splits)

text \<open>
  Claim C4, as amended. \<open>Cover\<close> tries the five strategies in priority order, and the
  first strategy that selects a manifest item decides: the result of \<open>Cover\<close> is the
  result of loading that item. When the selected entry cannot be read, \<open>Cover\<close> fails
  with the error of the read (for an entry missing from the archive,
  \<open>ErrFileNotFound\<close>) and tries no further strategy. \<open>Cover\<close> fails with
  \<open>ErrNoCover\<close> exactly when no strategy selects an item.
\<close>

theorem Cover_first_selection_decides:
  "(coverFromManifestProperties b = Some item \<longrightarrow>
      Cover tokenize mapRange b = loadCoverImage b item)
   \<and> (coverFromManifestProperties b = None \<and> coverFromMetaCover tokenize mapRange b = Some item \<longrightarrow>
        Cover tokenize mapRange b = loadCoverImage b item)
   \<and> (coverFromManifestProperties b = None \<and> coverFromMetaCover tokenize mapRange b = None
        \<and> coverFromGuide tokenize mapRange b = Some item \<longrightarrow>
        Cover tokenize mapRange b = loadCoverImage b item)
   \<and> (coverFromManifestProperties b = None \<and> coverFromMetaCover tokenize mapRange b = None
        \<and> coverFromGuide tokenize mapRange b = None \<and> coverFromManifestHeuristic b = Some item \<longrightarrow>
        Cover tokenize mapRange b = loadCoverImage b item)
   \<and> (coverFromManifestProperties b = None \<and> coverFromMetaCover tokenize mapRange b = None
        \<and> coverFromGuide tokenize mapRange b = None \<and> coverFromManifestHeuristic b = None
        \<and> coverFromFirstSpine tokenize mapRange b = Some item \<longrightarrow>
        Cover tokenize mapRange b = loadCoverImage b item)
   \<and> ((Cover tokenize mapRange b = Inl ErrNoCover) =
        (coverFromManifestProperties b = None \<and> coverFromMetaCover tokenize mapRange b = None
         \<and> coverFromGuide tokenize mapRange b = None \<and> coverFromManifestHeuristic b = None
         \<and> coverFromFirstSpine tokenize mapRange b = None))
   \<and> (ReadFile b (resolveOPFPath b (mi_Href item)) = Inl err \<longrightarrow> loadCoverImage b item = Inl err)
   \<and> (ReadFile b (resolveOPFPath b (mi_Href item)) = Inr data \<longrightarrow>
        loadCoverImage b item =
          Inr \<lparr>ci_Path = resolveOPFPath b (mi_Href item), ci_MediaType = mi_MediaType item,
               ci_Data = data\<rparr>)"
proof (intro conjI impI)
  show "(Cover tokenize mapRange b = Inl ErrNoCover) =
        (coverFromManifestProperties b = None \<and> coverFromMetaCover tokenize mapRange b = None
         \<and> coverFromGuide tokenize mapRange b = None \<and> coverFromManifestHeuristic b = None
         \<and> coverFromFirstSpine tokenize mapRange b = None)"
    using loadCoverImage_not_NoCover [of b]
    by (auto simp: Cover_def split: option.splits)
qed (simp_all add: Cover_def loadCoverImage_def)

text \<open>
  In the first book the first strategy selects the declared item, whose entry is
  missing: \<open>Cover\<close> fails with \<open>ErrFileNotFound\<close>. In the second book the first three
  strategies select nothing and the manifest heuristic selects the image that is
  returned.
\<close>

theorem Cover_first_selection_decides_witness:
  "Cover coverTokenize coverMapRange coverBook = Inl ErrFileNotFound
   \<and> Cover coverTokenize coverMapRange heuristicBook =
       Inr \<lparr>ci_Path = ''OEBPS/images/cover.jpg'', ci_MediaType = ''image/jpeg'',
            ci_Data = ''JPEGDATA''\<rparr>"
proof -
  have s1: "coverFromManifestProperties coverBook = Some (coverMapRange ! 0)" by code_simp
  have r1: "ReadFile coverBook (resolveOPFPath coverBook (mi_Href (coverMapRange ! 0)))
      = Inl ErrFileNotFound"
    by code_simp
  have h1: "coverFromManifestProperties heuristicBook = None" by code_simp
  have h2: "coverFromMetaCover coverTokenize coverMapRange heuristicBook = None" by code_simp
  have h3: "coverFromGuide coverTokenize coverMapRange heuristicBook = None" by code_simp
  have h4: "coverFromManifestHeuristic heuristicBook = Some (coverMapRange ! 1)" by code_simp
  have r4: "ReadFile heuristicBook (resolveOPFPath heuristicBook (mi_Href (coverMapRange ! 1)))
      = Inr ''JPEGDATA''"
    by code_simp
  have p4: "resolveOPFPath heuristicBook (mi_Href (coverMapRange ! 1)) = ''OEBPS/images/cover.jpg''"
    by code_simp
  have m4: "mi_MediaType (coverMapRange ! 1) = ''image/jpeg''" by code_simp
  have "Cover coverTokenize coverMapRange coverBook = Inl ErrFileNotFound"
    using Cover_first_selection_decides
      [of coverBook "coverMapRange ! 0" coverTokenize coverMapRange ErrFileNotFound] s1 r1
    by simp
  moreover have "Cover coverTokenize coverMapRange heuristicBook =
       Inr \<lparr>ci_Path = ''OEBPS/images/cover.jpg'', ci_MediaType = ''image/jpeg'',
            ci_Data = ''JPEGDATA''\<rparr>"
    using Cover_first_selection_decides
      [of heuristicBook "coverMapRange ! 1" coverTokenize coverMapRange _ "''JPEGDATA''"]
      h1 h2 h3 h4 r4 p4 m4
    by simp
  ultimately show ?thesis by simp
qed

text \<open>
  Claim C4 as stated fails. The first strategy selects an entry that cannot be read;
  the manifest heuristic would select an image that loads; and yet \<open>Cover\<close> does not
  try it and fails, with \<open>ErrFileNotFound\<close>, not with \<open>ErrNoCover\<close>.
\<close>

theorem Cover_no_fall_through_counterexample:
  "coverFromManifestProperties coverBook = Some (coverMapRange ! 0)
   \<and> loadCoverImage coverBook (coverMapRange ! 0) = Inl ErrFileNotFound
   \<and> coverFromManifestHeuristic coverBook = Some (coverMapRange ! 1)
   \<and> loadCoverImage coverBook (coverMapRange ! 1) =
       Inr \<lparr>ci_Path = ''OEBPS/images/cover.jpg'', ci_MediaType = ''image/jpeg'',
            ci_Data = ''JPEGDATA''\<rparr>
   \<and> Cover coverTokenize coverMapRange coverBook = Inl ErrFileNotFound"
proof -
  have a: "coverFromManifestProperties coverBook = Some (coverMapRange ! 0)" by code_simp
  have b: "loadCoverImage coverBook (coverMapRange ! 0) = Inl ErrFileNotFound" by code_simp
  have c: "coverFromManifestHeuristic coverBook = Some (coverMapRange ! 1)" by code_simp
  have d: "loadCoverImage coverBook (coverMapRange ! 1) =
       Inr \<lparr>ci_Path = ''OEBPS/images/cover.jpg'', ci_MediaType = ''image/jpeg'',
            ci_Data = ''JPEGDATA''\<rparr>"
    by code_simp
  have e: "Cover coverTokenize coverMapRange coverBook = Inl ErrFileNotFound" by code_simp
  show ?thesis using a b c d e by simp
qed

end
